theory Spec2Isabelle
  imports Complex_Main "HOL-Library.AList"
begin

section \<open>Data model\<close>

text \<open>
  The embedding follows \<^verbatim>\<open>src/src/SoundPlayer.js\<close>, which holds the classes
  \<^verbatim>\<open>SoundPlayer\<close>, \<^verbatim>\<open>DrumPlayer\<close>, \<^verbatim>\<open>AudioPlayer\<close> and \<^verbatim>\<open>AudioEngine\<close>.
  JavaScript numbers are modelled as real numbers. Objects that are mutated through
  references live in explicit stores and are named by their index:
  \<^item> the buffer source nodes made by \<^verbatim>\<open>Tone.context.createBufferSource()\<close> live in
    \<open>sources\<close>; a node that no object refers to any more is still in the store, as
    a started Web Audio node goes on sounding without a JavaScript reference;
  \<^item> the \<^verbatim>\<open>SoundPlayer\<close> objects made by one \<^verbatim>\<open>AudioPlayer\<close> live in its
    \<open>instances\<close>, each with the md5 under which \<^verbatim>\<open>playSound\<close> registered it.
  Sound identities are md5 names of sound files; none of them is the name of a
  property that a plain JavaScript object inherits, so an object used as a dictionary
  is a finite map.
\<close>

type_synonym md5 = string
type_synonym addr = nat
type_synonym node = nat

datatype js_error = TypeError

text \<open>A \<^verbatim>\<open>Tone.Buffer\<close>: its \<^verbatim>\<open>loaded\<close> flag and the audio data \<^verbatim>\<open>get()\<close> returns.\<close>

record ToneBuffer =
  loaded :: bool
  audio :: nat

datatype playback = Unstarted | Sounding | Silent

text \<open>A Web Audio buffer source node, the playback unit of one \<^verbatim>\<open>start()\<close>.\<close>

record BufferSource =
  src_buffer :: "nat option"
  src_playbackRate :: real
  src_destination :: "node option"
  src_state :: playback
  src_onended :: bool

text \<open>
  What the module reaches through globals: the audio context's nodes, the lines written
  by \<^verbatim>\<open>log.warn\<close>, and the delays (in ms) of the timers armed by \<^verbatim>\<open>setTimeout\<close>.
\<close>

record Runtime =
  sources :: "BufferSource list"
  warnings :: "string list"
  timeouts :: "real list"

record SoundPlayer =
  outputNode :: "node option"
  buffer :: "ToneBuffer option"
  bufferSource :: "addr option"
  playbackRate :: real
  isPlaying :: bool

text \<open>
  A promise as the caller receives it: pending until the \<^verbatim>\<open>onended\<close> handler of a
  source resolves it, or rejected with the error its executor threw.
\<close>

datatype promise = Pending addr | Rejected js_error

text \<open>
  Modelled from the spec: \<^verbatim>\<open>effects/PitchEffect.js\<close> is not among the sources. The pitch
  value is mapped to a playback-rate multiplier by \<open>rate = 2^(pitchValue/120)\<close>, and
  setting it re-applies the rate to every active sound player of the actor.
\<close>

record PitchEffect =
  pitch_value :: real
  ratio :: real

text \<open>
  Modelled from the spec: \<^verbatim>\<open>effects/PanEffect.js\<close> is not among the sources. Pan is one
  value applied at the shared output node.
\<close>

record PanEffect =
  pan_value :: real

record GainNode =
  node_id :: node
  gain_value :: real

type_synonym instance_store = "(md5 \<times> SoundPlayer) list"
type_synonym registry = "(md5 \<times> nat) list"

record AudioPlayer =
  pitchEffect :: PitchEffect
  panEffect :: PanEffect
  effectsNode :: GainNode
  instances :: instance_store
  activeSoundPlayers :: registry

text \<open>
  Modelled from the spec: \<^verbatim>\<open>InstrumentPlayer.js\<close> is not among the sources. The
  instrument bank is shared by all actors; it holds the notes in flight (note,
  seconds, instrument, volume) and \<^verbatim>\<open>stopAll\<close> halts them all.
\<close>

record InstrumentPlayer =
  notes_in_flight :: "(real \<times> real \<times> real \<times> real) list"

record AudioEngine =
  currentTempo :: real
  instrumentPlayer :: InstrumentPlayer
  drumSounds :: "SoundPlayer list"
  audioBuffers :: "md5 \<rightharpoonup> ToneBuffer"

record Sound =
  sound_format :: string
  sound_md5 :: md5

text \<open>
  What the decoder's promise does: \<^verbatim>\<open>Tone.context.decodeAudioData\<close> is an external
  capability and \<^verbatim>\<open>ADPCMSoundDecoder.js\<close> is not among the sources, so the outcome of a
  decode is a parameter: the \<^verbatim>\<open>Tone.Buffer\<close> built from the decoded audio, or failure.
\<close>

datatype decode_outcome = Decoded ToneBuffer | DecodeFailed

record World =
  runtime :: Runtime
  engine :: AudioEngine
  actors :: "AudioPlayer list"

section \<open>Globals\<close>

definition warn :: "string \<Rightarrow> Runtime \<Rightarrow> Runtime" where
  "warn msg rt = rt\<lparr>warnings := warnings rt @ [msg]\<rparr>"

definition setTimeout :: "real \<Rightarrow> Runtime \<Rightarrow> Runtime" where
  "setTimeout ms rt = rt\<lparr>timeouts := timeouts rt @ [ms]\<rparr>"

definition new_BufferSource :: BufferSource where
  "new_BufferSource =
     \<lparr>src_buffer = None, src_playbackRate = 1, src_destination = None,
      src_state = Unstarted, src_onended = False\<rparr>"

definition createBufferSource :: "Runtime \<Rightarrow> addr \<times> Runtime" where
  "createBufferSource rt =
     (length (sources rt), rt\<lparr>sources := sources rt @ [new_BufferSource]\<rparr>)"

text \<open>A write through a reference to a node; every reference held is to a node made before.\<close>

definition on_source :: "addr \<Rightarrow> (BufferSource \<Rightarrow> BufferSource) \<Rightarrow> Runtime \<Rightarrow> Runtime" where
  "on_source s f rt = rt\<lparr>sources := (sources rt)[s := f (sources rt ! s)]\<rparr>"

text \<open>
  \<^verbatim>\<open>new Promise(executor)\<close>: the executor runs at once; an exception it throws does not
  reach the caller of the constructor, the promise is rejected with it.
\<close>

definition new_Promise :: "js_error + addr \<Rightarrow> promise" where
  "new_Promise r = (case r of Inl e \<Rightarrow> Rejected e | Inr s \<Rightarrow> Pending s)"

section \<open>SoundPlayer\<close>

definition not_loaded_msg :: string where
  "not_loaded_msg = ''tried to play a sound that was not loaded yet''"

definition new_SoundPlayer :: SoundPlayer where
  "new_SoundPlayer =
     \<lparr>outputNode = None, buffer = Some \<lparr>loaded = False, audio = 0\<rparr>,
      bufferSource = None, playbackRate = 1, isPlaying = False\<rparr>"

definition connect :: "node \<Rightarrow> SoundPlayer \<Rightarrow> SoundPlayer" where
  "connect n p = p\<lparr>outputNode := Some n\<rparr>"

definition setBuffer :: "ToneBuffer \<Rightarrow> SoundPlayer \<Rightarrow> SoundPlayer" where
  "setBuffer b p = p\<lparr>buffer := Some b\<rparr>"

definition setPlaybackRate :: "real \<Rightarrow> SoundPlayer \<Rightarrow> Runtime \<Rightarrow> SoundPlayer \<times> Runtime" where
  "setPlaybackRate r p rt =
     (let p1 = p\<lparr>playbackRate := r\<rparr>
      in case bufferSource p1 of
           None \<Rightarrow> (p1, rt)
         | Some s \<Rightarrow> (p1, on_source s (\<lambda>x. x\<lparr>src_playbackRate := playbackRate p1\<rparr>) rt))"

definition stop :: "SoundPlayer \<Rightarrow> Runtime \<Rightarrow> SoundPlayer \<times> Runtime" where
  "stop p rt =
     (let rt1 = (case bufferSource p of
                   None \<Rightarrow> rt
                 | Some s \<Rightarrow> on_source s (\<lambda>x. x\<lparr>src_state := Silent\<rparr>) rt)
      in (p\<lparr>isPlaying := False\<rparr>, rt1))"

definition start :: "SoundPlayer \<Rightarrow> Runtime \<Rightarrow> SoundPlayer \<times> Runtime" where
  "start p rt =
     (case buffer p of
        None \<Rightarrow> (p, warn not_loaded_msg rt)
      | Some b \<Rightarrow>
          if \<not> loaded b then (p, warn not_loaded_msg rt)
          else
            (let (s, rt1) = createBufferSource rt;
                 p1 = p\<lparr>bufferSource := Some s\<rparr>;
                 rt2 = on_source s (\<lambda>x. x\<lparr>src_buffer := Some (audio b)\<rparr>) rt1;
                 rt3 = on_source s (\<lambda>x. x\<lparr>src_playbackRate := playbackRate p1\<rparr>) rt2;
                 rt4 = on_source s (\<lambda>x. x\<lparr>src_destination := outputNode p1\<rparr>) rt3;
                 rt5 = on_source s (\<lambda>x. x\<lparr>src_state := Sounding\<rparr>) rt4
             in (p1\<lparr>isPlaying := True\<rparr>, rt5)))"

text \<open>
  The executor of the promise made by \<^verbatim>\<open>finished()\<close> assigns to
  \<^verbatim>\<open>storedContext.bufferSource.onended\<close>: with \<^verbatim>\<open>bufferSource\<close> still \<^verbatim>\<open>null\<close> the
  assignment throws a TypeError, otherwise the handler is installed on the node.
\<close>

definition finished_executor :: "SoundPlayer \<Rightarrow> Runtime \<Rightarrow> (js_error + addr) \<times> Runtime" where
  "finished_executor p rt =
     (case bufferSource p of
        None \<Rightarrow> (Inl TypeError, rt)
      | Some s \<Rightarrow> (Inr s, on_source s (\<lambda>x. x\<lparr>src_onended := True\<rparr>) rt))"

definition finished :: "SoundPlayer \<Rightarrow> Runtime \<Rightarrow> promise \<times> Runtime" where
  "finished p rt = (let (r, rt1) = finished_executor p rt in (new_Promise r, rt1))"

section \<open>DrumPlayer\<close>

text \<open>
  The constructor makes one \<^verbatim>\<open>SoundPlayer\<close> per file name (the constructor of
  \<^verbatim>\<open>SoundPlayer\<close> takes no argument, so the output node stays \<^verbatim>\<open>null\<close>) and gives it a
  \<^verbatim>\<open>Tone.Buffer\<close> that loads from a URL, not loaded yet.
\<close>

definition num_drum_files :: nat where
  "num_drum_files = 18"

definition new_drumSounds :: "SoundPlayer list" where
  "new_drumSounds =
     replicate num_drum_files (setBuffer \<lparr>loaded = False, audio = 0\<rparr> new_SoundPlayer)"

text \<open>\<^verbatim>\<open>play(drum, outputNode)\<close>: a drum number outside the bank reads \<^verbatim>\<open>undefined\<close> and throws.\<close>

definition play :: "nat \<Rightarrow> node \<Rightarrow> SoundPlayer list \<Rightarrow> Runtime \<Rightarrow> js_error + SoundPlayer list \<times> Runtime" where
  "play drum n ds rt =
     (if drum < length ds
      then (let d1 = (ds ! drum)\<lparr>outputNode := Some n\<rparr>;
                (d2, rt1) = start d1 rt
            in Inr (ds[drum := d2], rt1))
      else Inl TypeError)"

fun stopAll :: "SoundPlayer list \<Rightarrow> Runtime \<Rightarrow> SoundPlayer list \<times> Runtime" where
  "stopAll [] rt = ([], rt)"
| "stopAll (d # ds) rt =
     (let (d1, rt1) = stop d rt;
          (ds1, rt2) = stopAll ds rt1
      in (d1 # ds1, rt2))"

section \<open>Collaborators modelled from the spec\<close>

text \<open>Modelled from the spec: \<^verbatim>\<open>InstrumentPlayer.stopAll\<close> halts every note in flight.\<close>

definition instrument_stopAll :: "InstrumentPlayer \<Rightarrow> InstrumentPlayer" where
  "instrument_stopAll ip = ip\<lparr>notes_in_flight := []\<rparr>"

text \<open>Modelled from the spec: the rate of a pitch value, \<open>2^(pitchValue/120)\<close>.\<close>

definition getRatio :: "real \<Rightarrow> real" where
  "getRatio v = 2 powr (v / 120)"

text \<open>Modelled from the spec: \<^verbatim>\<open>PitchEffect.updatePlayer\<close> applies the current rate to a player.\<close>

definition updatePlayer :: "PitchEffect \<Rightarrow> SoundPlayer \<Rightarrow> Runtime \<Rightarrow> SoundPlayer \<times> Runtime" where
  "updatePlayer pe p rt = setPlaybackRate (ratio pe) p rt"

text \<open>Modelled from the spec: \<^verbatim>\<open>PanEffect.set\<close> stores the pan value.\<close>

definition pan_set :: "real \<Rightarrow> PanEffect \<Rightarrow> PanEffect" where
  "pan_set v pn = pn\<lparr>pan_value := v\<rparr>"

section \<open>AudioPlayer\<close>

text \<open>A method call on the \<^verbatim>\<open>SoundPlayer\<close> object at index \<open>i\<close> of the actor's store.\<close>

definition on_instance ::
  "nat \<Rightarrow> (SoundPlayer \<Rightarrow> Runtime \<Rightarrow> SoundPlayer \<times> Runtime) \<Rightarrow> instance_store \<Rightarrow> Runtime
     \<Rightarrow> instance_store \<times> Runtime" where
  "on_instance i m insts rt =
     (if i < length insts
      then (let (p1, rt1) = m (snd (insts ! i)) rt
            in (insts[i := (fst (insts ! i), p1)], rt1))
      else (insts, rt))"

text \<open>
  \<^verbatim>\<open>for (const id in players) players[id].m()\<close>: the keys are visited in insertion
  order; a key with no entry is not visited.
\<close>

fun forIn ::
  "md5 list \<Rightarrow> registry \<Rightarrow> (SoundPlayer \<Rightarrow> Runtime \<Rightarrow> SoundPlayer \<times> Runtime) \<Rightarrow> instance_store
     \<Rightarrow> Runtime \<Rightarrow> instance_store \<times> Runtime" where
  "forIn [] reg m insts rt = (insts, rt)"
| "forIn (k # ks) reg m insts rt =
     (case map_of reg k of
        None \<Rightarrow> forIn ks reg m insts rt
      | Some i \<Rightarrow>
          (let (insts1, rt1) = on_instance i m insts rt
           in forIn ks reg m insts1 rt1))"

text \<open>
  Modelled from the spec: \<^verbatim>\<open>PitchEffect.set(value, players)\<close> stores the value, derives
  the rate and re-applies it to every player of \<open>players\<close>.
\<close>

definition pitch_set ::
  "real \<Rightarrow> registry \<Rightarrow> PitchEffect \<Rightarrow> instance_store \<Rightarrow> Runtime
     \<Rightarrow> PitchEffect \<times> instance_store \<times> Runtime" where
  "pitch_set v reg pe insts rt =
     (let pe1 = pe\<lparr>pitch_value := v, ratio := getRatio v\<rparr>;
          (insts1, rt1) = forIn (map fst reg) reg (updatePlayer pe1) insts rt
      in (pe1, insts1, rt1))"

text \<open>
  The loop of lines 226-232 of \<^verbatim>\<open>playSound\<close>: every key of the registry is visited, and
  the entry is deleted when its player is not playing. A registry value is a reference
  to a player, so it names an object of the store; an index outside the store does not
  occur (\<open>registry_sound\<close> below) and such an entry would be left alone.
\<close>

fun prune :: "md5 list \<Rightarrow> instance_store \<Rightarrow> registry \<Rightarrow> registry" where
  "prune [] insts reg = reg"
| "prune (k # ks) insts reg =
     (case map_of reg k of
        None \<Rightarrow> prune ks insts reg
      | Some i \<Rightarrow>
          if i < length insts \<and> \<not> isPlaying (snd (insts ! i))
          then prune ks insts (AList.delete k reg)
          else prune ks insts reg)"

text \<open>Lines 210-213: if this actor is already playing this sound, stop it first.\<close>

definition stop_if_active :: "md5 \<Rightarrow> AudioPlayer \<Rightarrow> Runtime \<Rightarrow> instance_store \<times> Runtime" where
  "stop_if_active m ap rt =
     (case map_of (activeSoundPlayers ap) m of
        None \<Rightarrow> (instances ap, rt)
      | Some i \<Rightarrow> on_instance i stop (instances ap) rt)"

text \<open>Lines 215-220: create a new sound player for the buffer and start it.\<close>

definition create_and_start :: "ToneBuffer \<Rightarrow> AudioPlayer \<Rightarrow> Runtime \<Rightarrow> SoundPlayer \<times> Runtime" where
  "create_and_start b ap rt =
     (let player = new_SoundPlayer;
          player = setBuffer b player;
          player = connect (node_id (effectsNode ap)) player;
          (player, rt1) = updatePlayer (pitchEffect ap) player rt
      in start player rt1)"

definition playSound ::
  "md5 \<Rightarrow> AudioEngine \<Rightarrow> AudioPlayer \<Rightarrow> Runtime \<Rightarrow> promise option \<times> AudioPlayer \<times> Runtime" where
  "playSound m e ap rt =
     (case audioBuffers e m of
        None \<Rightarrow> (None, ap, rt)
      | Some b \<Rightarrow>
          (let (insts1, rt1) = stop_if_active m ap rt;
               (player, rt2) = create_and_start b ap rt1;
               insts2 = insts1 @ [(m, player)];
               reg1 = AList.update m (length insts1) (activeSoundPlayers ap);
               reg2 = prune (map fst reg1) insts2 reg1;
               (pr, rt3) = finished player rt2
           in (Some pr, ap\<lparr>instances := insts2, activeSoundPlayers := reg2\<rparr>, rt3)))"

definition stopAllSounds ::
  "AudioEngine \<Rightarrow> AudioPlayer \<Rightarrow> Runtime \<Rightarrow> AudioEngine \<times> AudioPlayer \<times> Runtime" where
  "stopAllSounds e ap rt =
     (let (insts1, rt1) =
            forIn (map fst (activeSoundPlayers ap)) (activeSoundPlayers ap) stop (instances ap) rt;
          e1 = e\<lparr>instrumentPlayer := instrument_stopAll (instrumentPlayer e)\<rparr>;
          (ds1, rt2) = stopAll (drumSounds e1) rt1
      in (e1\<lparr>drumSounds := ds1\<rparr>, ap\<lparr>instances := insts1\<rparr>, rt2))"

definition setEffect :: "string \<Rightarrow> real \<Rightarrow> AudioPlayer \<Rightarrow> Runtime \<Rightarrow> AudioPlayer \<times> Runtime" where
  "setEffect effect v ap rt =
     (if effect = ''pitch''
      then (let (pe1, insts1, rt1) =
                  pitch_set v (activeSoundPlayers ap) (pitchEffect ap) (instances ap) rt
            in (ap\<lparr>pitchEffect := pe1, instances := insts1\<rparr>, rt1))
      else if effect = ''pan''
      then (ap\<lparr>panEffect := pan_set v (panEffect ap)\<rparr>, rt)
      else (ap, rt))"

definition clearEffects :: "AudioPlayer \<Rightarrow> Runtime \<Rightarrow> AudioPlayer \<times> Runtime" where
  "clearEffects ap rt =
     (let ap1 = ap\<lparr>panEffect := pan_set 0 (panEffect ap)\<rparr>;
          (pe1, insts1, rt1) =
            pitch_set 0 (activeSoundPlayers ap1) (pitchEffect ap1) (instances ap1) rt;
          ap2 = ap1\<lparr>pitchEffect := pe1, instances := insts1\<rparr>
      in (ap2\<lparr>effectsNode := (effectsNode ap2)\<lparr>gain_value := 1\<rparr>\<rparr>, rt1))"

definition setVolume :: "real \<Rightarrow> AudioPlayer \<Rightarrow> AudioPlayer" where
  "setVolume v ap = ap\<lparr>effectsNode := (effectsNode ap)\<lparr>gain_value := v / 100\<rparr>\<rparr>"

text \<open>
  The constructor: fresh effects, a fresh gain node (its identity is \<open>n\<close>), then
  \<^verbatim>\<open>clearEffects()\<close>, which runs before the registry exists, then the empty registry.
\<close>

definition new_AudioPlayer :: "node \<Rightarrow> Runtime \<Rightarrow> AudioPlayer \<times> Runtime" where
  "new_AudioPlayer n rt =
     (let ap = \<lparr>pitchEffect = \<lparr>pitch_value = 0, ratio = 1\<rparr>, panEffect = \<lparr>pan_value = 0\<rparr>,
                effectsNode = \<lparr>node_id = n, gain_value = 1\<rparr>, instances = [],
                activeSoundPlayers = []\<rparr>;
          (ap1, rt1) = clearEffects ap rt
      in (ap1\<lparr>activeSoundPlayers := []\<rparr>, rt1))"

section \<open>AudioEngine\<close>

definition new_AudioEngine :: AudioEngine where
  "new_AudioEngine =
     \<lparr>currentTempo = 60, instrumentPlayer = \<lparr>notes_in_flight = []\<rparr>,
      drumSounds = new_drumSounds, audioBuffers = Map.empty\<rparr>"

text \<open>
  \<^verbatim>\<open>beatsToSec\<close>. With a tempo of 0 JavaScript divides to \<^verbatim>\<open>Infinity\<close>, which the reals do
  not have; what is proved of the value of \<open>beatsToSec\<close> is proved for a tempo above 0.
\<close>

definition beatsToSec :: "AudioEngine \<Rightarrow> real \<Rightarrow> real" where
  "beatsToSec e beats = (60 / currentTempo e) * beats"

text \<open>
  \<^verbatim>\<open>waitForBeats\<close>: the promise's executor runs inside the call and arms the timer with
  the delay computed there.
\<close>

definition waitForBeats :: "real \<Rightarrow> AudioEngine \<Rightarrow> Runtime \<Rightarrow> Runtime" where
  "waitForBeats beats e rt = setTimeout (beatsToSec e beats * 1000) rt"

definition setTempo :: "real \<Rightarrow> AudioEngine \<Rightarrow> AudioEngine" where
  "setTempo v e = e\<lparr>currentTempo := v\<rparr>"

definition changeTempo :: "real \<Rightarrow> AudioEngine \<Rightarrow> AudioEngine" where
  "changeTempo v e = setTempo (currentTempo e + v) e"

text \<open>
  \<^verbatim>\<open>decodeSound\<close> in two parts. The call itself picks the decoder by the format and
  returns a warning for any other format; \<open>decodeSound_settled\<close> is what the handlers
  given to \<^verbatim>\<open>then\<close> do once the decoder's promise has settled. The console line and
  the copy of the payload, which is what the decoder reads, touch nothing that is
  modelled.
\<close>

definition unknown_format_msg :: string where
  "unknown_format_msg = ''unknown sound format''"

definition decode_failed_msg :: string where
  "decode_failed_msg = ''audio data could not be decoded''"

datatype decoder = DecodeAudioData | ADPCMSoundDecoder

definition decodeSound :: "Sound \<Rightarrow> Runtime \<Rightarrow> decoder option \<times> Runtime" where
  "decodeSound sound rt =
     (if sound_format sound = [] then (Some DecodeAudioData, rt)
      else if sound_format sound = ''adpcm'' then (Some ADPCMSoundDecoder, rt)
      else (None, warn unknown_format_msg rt))"

definition decodeSound_settled ::
  "Sound \<Rightarrow> decode_outcome \<Rightarrow> AudioEngine \<Rightarrow> Runtime \<Rightarrow> AudioEngine \<times> Runtime" where
  "decodeSound_settled sound outcome e rt =
     (case outcome of
        Decoded b \<Rightarrow> (e\<lparr>audioBuffers := (audioBuffers e)(sound_md5 sound \<mapsto> b)\<rparr>, rt)
      | DecodeFailed \<Rightarrow> (e, warn decode_failed_msg rt))"

text \<open>\<^verbatim>\<open>playDrumForBeats\<close> of \<^verbatim>\<open>AudioPlayer\<close>, which needs \<^verbatim>\<open>waitForBeats\<close>.\<close>

definition playDrumForBeats ::
  "nat \<Rightarrow> real \<Rightarrow> AudioEngine \<Rightarrow> AudioPlayer \<Rightarrow> Runtime \<Rightarrow> js_error + AudioEngine \<times> Runtime" where
  "playDrumForBeats drum beats e ap rt =
     (case play drum (node_id (effectsNode ap)) (drumSounds e) rt of
        Inl err \<Rightarrow> Inl err
      | Inr (ds1, rt1) \<Rightarrow>
          (let e1 = e\<lparr>drumSounds := ds1\<rparr>
           in Inr (e1, waitForBeats beats e1 rt1)))"

section \<open>The system: one engine, its actors, and the calls made on them\<close>

text \<open>
  The handler that \<^verbatim>\<open>finished()\<close> installs as \<^verbatim>\<open>onended\<close>, bound to its player. It runs
  when the \<^verbatim>\<open>ended\<close> event of the player's node is delivered, which needs a node that
  was started and has the handler.
\<close>

definition onended_handler :: "SoundPlayer \<Rightarrow> SoundPlayer" where
  "onended_handler p = p\<lparr>isPlaying := False\<rparr>"

definition ended :: "nat \<Rightarrow> AudioPlayer \<Rightarrow> Runtime \<Rightarrow> AudioPlayer \<times> Runtime" where
  "ended i ap rt =
     (if i < length (instances ap)
      then (case bufferSource (snd (instances ap ! i)) of
              None \<Rightarrow> (ap, rt)
            | Some s \<Rightarrow>
                if s < length (sources rt) \<and> src_state (sources rt ! s) \<noteq> Unstarted
                   \<and> src_onended (sources rt ! s)
                then (ap\<lparr>instances := (instances ap)
                            [i := (fst (instances ap ! i), onended_handler (snd (instances ap ! i)))]\<rparr>,
                      on_source s (\<lambda>x. x\<lparr>src_state := Silent\<rparr>) rt)
                else (ap, rt))
      else (ap, rt))"

text \<open>The whole of \<^verbatim>\<open>decodeSound\<close>: the call, then the settling of the decoder's promise.\<close>

definition decodeSound_run ::
  "Sound \<Rightarrow> decode_outcome \<Rightarrow> AudioEngine \<Rightarrow> Runtime \<Rightarrow> AudioEngine \<times> Runtime" where
  "decodeSound_run sound outcome e rt =
     (case decodeSound sound rt of
        (None, rt1) \<Rightarrow> (e, rt1)
      | (Some d, rt1) \<Rightarrow> decodeSound_settled sound outcome e rt1)"

text \<open>
  What can happen to the system. An actor is named by its position in \<open>actors\<close>; a call
  on an actor that does not exist cannot be made and is no step. \<open>DrumLoaded\<close> is the
  arrival of a drum file, \<open>Ended\<close> the delivery of the \<^verbatim>\<open>ended\<close> event of an instance.
\<close>

datatype event =
    CreatePlayer
  | PlaySound nat md5
  | StopAllSounds nat
  | SetEffect nat string real
  | ClearEffects nat
  | SetVolume nat real
  | PlayDrumForBeats nat nat real
  | WaitForBeats real
  | SetTempo real
  | ChangeTempo real
  | DecodeSound Sound decode_outcome
  | DrumLoaded nat nat
  | Ended nat nat

definition new_World :: World where
  "new_World =
     \<lparr>runtime = \<lparr>sources = [], warnings = [], timeouts = []\<rparr>,
      engine = new_AudioEngine, actors = []\<rparr>"

fun exec :: "event \<Rightarrow> World \<Rightarrow> World" where
  "exec CreatePlayer w =
     (let (ap, rt1) = new_AudioPlayer (Suc (length (actors w))) (runtime w)
      in w\<lparr>runtime := rt1, actors := actors w @ [ap]\<rparr>)"
| "exec (PlaySound a m) w =
     (if a < length (actors w)
      then (let (r, ap1, rt1) = playSound m (engine w) (actors w ! a) (runtime w)
            in w\<lparr>runtime := rt1, actors := (actors w)[a := ap1]\<rparr>)
      else w)"
| "exec (StopAllSounds a) w =
     (if a < length (actors w)
      then (let (e1, ap1, rt1) = stopAllSounds (engine w) (actors w ! a) (runtime w)
            in w\<lparr>runtime := rt1, engine := e1, actors := (actors w)[a := ap1]\<rparr>)
      else w)"
| "exec (SetEffect a effect v) w =
     (if a < length (actors w)
      then (let (ap1, rt1) = setEffect effect v (actors w ! a) (runtime w)
            in w\<lparr>runtime := rt1, actors := (actors w)[a := ap1]\<rparr>)
      else w)"
| "exec (ClearEffects a) w =
     (if a < length (actors w)
      then (let (ap1, rt1) = clearEffects (actors w ! a) (runtime w)
            in w\<lparr>runtime := rt1, actors := (actors w)[a := ap1]\<rparr>)
      else w)"
| "exec (SetVolume a v) w =
     (if a < length (actors w)
      then w\<lparr>actors := (actors w)[a := setVolume v (actors w ! a)]\<rparr>
      else w)"
| "exec (PlayDrumForBeats a drum beats) w =
     (if a < length (actors w)
      then (case playDrumForBeats drum beats (engine w) (actors w ! a) (runtime w) of
              Inl err \<Rightarrow> w
            | Inr (e1, rt1) \<Rightarrow> w\<lparr>runtime := rt1, engine := e1\<rparr>)
      else w)"
| "exec (WaitForBeats beats) w = w\<lparr>runtime := waitForBeats beats (engine w) (runtime w)\<rparr>"
| "exec (SetTempo v) w = w\<lparr>engine := setTempo v (engine w)\<rparr>"
| "exec (ChangeTempo v) w = w\<lparr>engine := changeTempo v (engine w)\<rparr>"
| "exec (DecodeSound sound outcome) w =
     (let (e1, rt1) = decodeSound_run sound outcome (engine w) (runtime w)
      in w\<lparr>runtime := rt1, engine := e1\<rparr>)"
| "exec (DrumLoaded drum a) w =
     (if drum < length (drumSounds (engine w))
      then w\<lparr>engine := (engine w)\<lparr>drumSounds := (drumSounds (engine w))
                [drum := setBuffer \<lparr>loaded = True, audio = a\<rparr> (drumSounds (engine w) ! drum)]\<rparr>\<rparr>
      else w)"
| "exec (Ended a i) w =
     (if a < length (actors w)
      then (let (ap1, rt1) = ended i (actors w ! a) (runtime w)
            in w\<lparr>runtime := rt1, actors := (actors w)[a := ap1]\<rparr>)
      else w)"

text \<open>The state after a sequence of events, the first of the list first.\<close>

definition run :: "event list \<Rightarrow> World \<Rightarrow> World" where
  "run evs w = fold exec evs w"

text \<open>The instances of sound \<open>x\<close> that an actor made and that are in playing state.\<close>

definition playing_instances :: "AudioPlayer \<Rightarrow> md5 \<Rightarrow> nat list" where
  "playing_instances ap x =
     filter (\<lambda>i. fst (instances ap ! i) = x \<and> isPlaying (snd (instances ap ! i)))
       [0..<length (instances ap)]"

text \<open>
  Concrete histories used as examples: an actor that plays a decoded sound; the same
  after \<^verbatim>\<open>stopAllSounds\<close>; an actor and a sound whose buffer is registered but not
  loaded; two actors that each play drum 0 once the drum file has arrived.
\<close>

definition sound_a :: Sound where
  "sound_a = \<lparr>sound_format = [], sound_md5 = ''a.wav''\<rparr>"

definition world_playing :: World where
  "world_playing =
     run [CreatePlayer, DecodeSound sound_a (Decoded \<lparr>loaded = True, audio = 1\<rparr>),
          PlaySound 0 ''a.wav''] new_World"

definition world_stopped :: World where
  "world_stopped = run [StopAllSounds 0] world_playing"

definition world_unloaded :: World where
  "world_unloaded =
     run [CreatePlayer, DecodeSound sound_a (Decoded \<lparr>loaded = False, audio = 1\<rparr>)] new_World"

definition world_drums :: World where
  "world_drums =
     run [CreatePlayer, CreatePlayer, DrumLoaded 0 7, PlayDrumForBeats 0 0 1,
          PlayDrumForBeats 1 0 1] new_World"

text \<open>
  Well-formedness of an actor: a registry entry names an instance of the actor made for
  that very md5; an instance in playing state is the one its md5 is registered to; the
  node an instance refers to exists.
\<close>

definition registry_sound :: "AudioPlayer \<Rightarrow> bool" where
  "registry_sound ap =
     (\<forall>k i. map_of (activeSoundPlayers ap) k = Some i
        \<longrightarrow> i < length (instances ap) \<and> fst (instances ap ! i) = k)"

definition playing_registered :: "AudioPlayer \<Rightarrow> bool" where
  "playing_registered ap =
     (\<forall>i < length (instances ap). isPlaying (snd (instances ap ! i))
        \<longrightarrow> map_of (activeSoundPlayers ap) (fst (instances ap ! i)) = Some i)"

definition sources_allocated :: "instance_store \<Rightarrow> Runtime \<Rightarrow> bool" where
  "sources_allocated insts rt =
     (\<forall>i < length insts. \<forall>s. bufferSource (snd (insts ! i)) = Some s \<longrightarrow> s < length (sources rt))"

definition wf_actor :: "AudioPlayer \<Rightarrow> Runtime \<Rightarrow> bool" where
  "wf_actor ap rt =
     (registry_sound ap \<and> playing_registered ap \<and> sources_allocated (instances ap) rt)"

definition wf_world :: "World \<Rightarrow> bool" where
  "wf_world w = (\<forall>ap \<in> set (actors w). wf_actor ap (runtime w))"

section \<open>Stores and loops\<close>

text \<open>The defining equations by which a concrete history is evaluated.\<close>

lemmas eval_defs =
  run_def new_World_def new_AudioEngine_def new_AudioPlayer_def clearEffects_def pitch_set_def
  pan_set_def getRatio_def playSound_def stop_if_active_def create_and_start_def
  new_SoundPlayer_def setBuffer_def connect_def updatePlayer_def setPlaybackRate_def start_def
  stop_def createBufferSource_def new_BufferSource_def on_source_def on_instance_def warn_def
  finished_def finished_executor_def new_Promise_def stopAllSounds_def instrument_stopAll_def
  decodeSound_run_def decodeSound_def decodeSound_settled_def playDrumForBeats_def play_def
  waitForBeats_def setTimeout_def beatsToSec_def not_loaded_msg_def new_drumSounds_def
  num_drum_files_def setEffect_def sound_a_def world_playing_def world_stopped_def
  world_unloaded_def world_drums_def Let_def split_def

lemma on_source_length [simp]: "length (sources (on_source s f rt)) = length (sources rt)"
  by (simp add: on_source_def)

lemma on_source_frame [simp]:
  "warnings (on_source s f rt) = warnings rt" "timeouts (on_source s f rt) = timeouts rt"
  by (simp_all add: on_source_def)

lemma on_source_nth:
  "sources (on_source s f rt) ! t =
     (if t = s \<and> s < length (sources rt) then f (sources rt ! s) else sources rt ! t)"
  by (cases "s < length (sources rt)") (simp_all add: on_source_def nth_list_update not_less list_update_beyond)

lemma stop_player: "fst (stop p rt) = p\<lparr>isPlaying := False\<rparr>"
  by (simp add: stop_def Let_def)

lemma stop_length [simp]: "length (sources (snd (stop p rt))) = length (sources rt)"
  by (simp add: stop_def Let_def split: option.splits)

lemma stop_state:
  "src_state (sources (snd (stop p rt)) ! t) =
     (if bufferSource p = Some t \<and> t < length (sources rt) then Silent
      else src_state (sources rt ! t))"
  by (auto simp add: stop_def Let_def on_source_nth split: option.splits)

lemma setPlaybackRate_player: "fst (setPlaybackRate r p rt) = p\<lparr>playbackRate := r\<rparr>"
  by (simp add: setPlaybackRate_def Let_def split: option.splits)

lemma setPlaybackRate_length [simp]:
  "length (sources (snd (setPlaybackRate r p rt))) = length (sources rt)"
  by (simp add: setPlaybackRate_def Let_def split: option.splits)

lemma setPlaybackRate_state [simp]:
  "src_state (sources (snd (setPlaybackRate r p rt)) ! t) = src_state (sources rt ! t)"
  by (simp add: setPlaybackRate_def Let_def on_source_nth split: option.splits)

lemma setPlaybackRate_rate:
  "src_playbackRate (sources (snd (setPlaybackRate r p rt)) ! t) =
     (if bufferSource p = Some t \<and> t < length (sources rt) then r
      else src_playbackRate (sources rt ! t))"
  by (auto simp add: setPlaybackRate_def Let_def on_source_nth split: option.splits)

lemma on_instance_length [simp]: "length (fst (on_instance i m insts rt)) = length insts"
  by (simp add: on_instance_def Let_def split_def)

lemma on_instance_nth:
  "fst (on_instance i m insts rt) ! j =
     (if j = i \<and> i < length insts then (fst (insts ! i), fst (m (snd (insts ! i)) rt))
      else insts ! j)"
  by (simp add: on_instance_def Let_def split_def)

lemma on_instance_runtime:
  "snd (on_instance i m insts rt) =
     (if i < length insts then snd (m (snd (insts ! i)) rt) else rt)"
  by (simp add: on_instance_def Let_def split_def)

text \<open>An invariant rule for the loop over the registry.\<close>

lemma forIn_invariant:
  assumes "Q insts rt"
    and "\<And>i xs r. Q xs r \<Longrightarrow> Q (fst (on_instance i m xs r)) (snd (on_instance i m xs r))"
  shows "Q (fst (forIn ks reg m insts rt)) (snd (forIn ks reg m insts rt))"
  using assms(1)
proof (induction ks arbitrary: insts rt)
  case Nil
  then show ?case by simp
next
  case (Cons k ks)
  show ?case
  proof (cases "map_of reg k")
    case None
    with Cons show ?thesis by simp
  next
    case (Some i)
    have "Q (fst (on_instance i m insts rt)) (snd (on_instance i m insts rt))"
      using Cons.prems assms(2) by blast
    from Cons.IH [OF this] Some show ?thesis
      by (simp add: split_def Let_def)
  qed
qed

lemma forIn_visits:
  assumes "k \<in> set ks" and "map_of reg k = Some i"
    and "\<And>xs r. i < length xs \<Longrightarrow> P (fst (on_instance i m xs r)) (snd (on_instance i m xs r))"
    and "\<And>j xs r. P xs r \<Longrightarrow> P (fst (on_instance j m xs r)) (snd (on_instance j m xs r))"
    and "i < length insts"
  shows "P (fst (forIn ks reg m insts rt)) (snd (forIn ks reg m insts rt))"
  using assms(1,5)
proof (induction ks arbitrary: insts rt)
  case Nil
  then show ?case by simp
next
  case (Cons k' ks)
  show ?case
  proof (cases "k' = k")
    case True
    have "P (fst (on_instance i m insts rt)) (snd (on_instance i m insts rt))"
      using assms(3) Cons.prems(2) by blast
    then have "P (fst (forIn ks reg m (fst (on_instance i m insts rt)) (snd (on_instance i m insts rt))))
                 (snd (forIn ks reg m (fst (on_instance i m insts rt)) (snd (on_instance i m insts rt))))"
      using assms(4) by (rule forIn_invariant)
    with True assms(2) show ?thesis by (simp add: split_def Let_def)
  next
    case False
    with Cons.prems have in_ks: "k \<in> set ks" by simp
    show ?thesis
    proof (cases "map_of reg k'")
      case None
      with Cons.IH [OF in_ks Cons.prems(2)] show ?thesis by simp
    next
      case (Some j)
      have "i < length (fst (on_instance j m insts rt))"
        using Cons.prems(2) by simp
      from Cons.IH [OF in_ks this] Some show ?thesis by (simp add: split_def Let_def)
    qed
  qed
qed

lemma prune_map_of:
  "map_of (prune ks insts reg) k =
     (if k \<in> set ks \<and> (\<exists>i. map_of reg k = Some i \<and> i < length insts \<and> \<not> isPlaying (snd (insts ! i)))
      then None else map_of reg k)"
proof (induction ks arbitrary: reg)
  case Nil
  then show ?case by simp
next
  case (Cons k' ks)
  show ?case
  proof (cases "map_of reg k'")
    case None
    then show ?thesis using Cons.IH [of reg] by auto
  next
    case (Some j)
    show ?thesis
    proof (cases "j < length insts \<and> \<not> isPlaying (snd (insts ! j))")
      case True
      then show ?thesis using Some Cons.IH [of "AList.delete k' reg"]
        by (auto simp add: delete_conv')
    next
      case False
      then show ?thesis using Some Cons.IH [of reg] by auto
    qed
  qed
qed

lemma pitch_set_effect:
  "fst (pitch_set v reg pe insts rt) = pe\<lparr>pitch_value := v, ratio := getRatio v\<rparr>"
  by (simp add: pitch_set_def Let_def split_def)

section \<open>What one call of playSound does\<close>

lemma create_and_start_loaded:
  assumes "loaded b"
  shows "create_and_start b ap rt =
     (\<lparr>outputNode = Some (node_id (effectsNode ap)), buffer = Some b,
       bufferSource = Some (length (sources rt)), playbackRate = ratio (pitchEffect ap),
       isPlaying = True\<rparr>,
      rt\<lparr>sources := sources rt @
           [\<lparr>src_buffer = Some (audio b), src_playbackRate = ratio (pitchEffect ap),
             src_destination = Some (node_id (effectsNode ap)), src_state = Sounding,
             src_onended = False\<rparr>]\<rparr>)"
  using assms
  by (simp add: create_and_start_def new_SoundPlayer_def setBuffer_def connect_def
      updatePlayer_def setPlaybackRate_def start_def createBufferSource_def on_source_def
      new_BufferSource_def Let_def)

lemma create_and_start_not_loaded:
  assumes "\<not> loaded b"
  shows "create_and_start b ap rt =
     (\<lparr>outputNode = Some (node_id (effectsNode ap)), buffer = Some b,
       bufferSource = None, playbackRate = ratio (pitchEffect ap), isPlaying = False\<rparr>,
      warn not_loaded_msg rt)"
  using assms
  by (simp add: create_and_start_def new_SoundPlayer_def setBuffer_def connect_def
      updatePlayer_def setPlaybackRate_def start_def Let_def)

lemma finished_started:
  assumes "bufferSource p = Some s"
  shows "finished p rt = (Pending s, on_source s (\<lambda>x. x\<lparr>src_onended := True\<rparr>) rt)"
  using assms by (simp add: finished_def finished_executor_def new_Promise_def)

lemma finished_not_started:
  assumes "bufferSource p = None"
  shows "finished p rt = (Rejected TypeError, rt)"
  using assms by (simp add: finished_def finished_executor_def new_Promise_def)

lemma playSound_not_loaded:
  assumes "audioBuffers e m = Some b" and "\<not> loaded b"
  shows "fst (playSound m e ap rt) = Some (Rejected TypeError)"
    and "snd (snd (playSound m e ap rt)) = warn not_loaded_msg (snd (stop_if_active m ap rt))"
  using assms
  by (simp_all add: playSound_def Let_def split_def create_and_start_not_loaded finished_not_started)

lemma stop_if_active_length [simp]:
  "length (fst (stop_if_active m ap rt)) = length (instances ap)"
  by (simp add: stop_if_active_def split: option.splits)

lemma stop_if_active_sources [simp]:
  "length (sources (snd (stop_if_active m ap rt))) = length (sources rt)"
  by (simp add: stop_if_active_def on_instance_runtime split: option.splits)

lemma stop_if_active_nth:
  "fst (stop_if_active m ap rt) ! j =
     (if map_of (activeSoundPlayers ap) m = Some j \<and> j < length (instances ap)
      then (fst (instances ap ! j), (snd (instances ap ! j))\<lparr>isPlaying := False\<rparr>)
      else instances ap ! j)"
  by (auto simp add: stop_if_active_def on_instance_nth stop_player split: option.splits)

lemma stop_if_active_state:
  "src_state (sources (snd (stop_if_active m ap rt)) ! t) =
     (if \<exists>i. map_of (activeSoundPlayers ap) m = Some i \<and> i < length (instances ap)
            \<and> bufferSource (snd (instances ap ! i)) = Some t \<and> t < length (sources rt)
      then Silent else src_state (sources rt ! t))"
  by (auto simp add: stop_if_active_def on_instance_runtime stop_state split: option.splits)

lemma create_and_start_isPlaying: "isPlaying (fst (create_and_start b ap rt)) = loaded b"
  by (cases "loaded b") (simp_all add: create_and_start_loaded create_and_start_not_loaded)

lemma create_and_start_bufferSource:
  "bufferSource (fst (create_and_start b ap rt)) =
     (if loaded b then Some (length (sources rt)) else None)"
  by (cases "loaded b") (simp_all add: create_and_start_loaded create_and_start_not_loaded)

lemma create_and_start_sources:
  "length (sources (snd (create_and_start b ap rt))) =
     (if loaded b then Suc (length (sources rt)) else length (sources rt))"
  by (cases "loaded b") (simp_all add: create_and_start_loaded create_and_start_not_loaded warn_def)

lemma finished_sources [simp]: "length (sources (snd (finished p rt))) = length (sources rt)"
  by (cases "bufferSource p") (simp_all add: finished_started finished_not_started)

lemma playSound_actor:
  assumes "audioBuffers e m = Some b"
  shows "fst (snd (playSound m e ap rt)) =
     ap\<lparr>instances := fst (stop_if_active m ap rt)
            @ [(m, fst (create_and_start b ap (snd (stop_if_active m ap rt))))],
        activeSoundPlayers :=
          prune (map fst (AList.update m (length (instances ap)) (activeSoundPlayers ap)))
            (fst (stop_if_active m ap rt)
               @ [(m, fst (create_and_start b ap (snd (stop_if_active m ap rt))))])
            (AList.update m (length (instances ap)) (activeSoundPlayers ap))\<rparr>"
  using assms by (simp add: playSound_def Let_def split_def)

lemma playSound_sources:
  "length (sources (snd (snd (playSound m e ap rt)))) =
     (case audioBuffers e m of
        None \<Rightarrow> length (sources rt)
      | Some b \<Rightarrow> if loaded b then Suc (length (sources rt)) else length (sources rt))"
  by (simp add: playSound_def Let_def split_def create_and_start_sources split: option.splits)

lemma playSound_wf:
  assumes wf: "wf_actor ap rt"
  shows "wf_actor (fst (snd (playSound m e ap rt))) (snd (snd (playSound m e ap rt)))"
proof (cases "audioBuffers e m")
  case None
  with wf show ?thesis by (simp add: playSound_def)
next
  case (Some b)
  define insts where "insts = instances ap"
  define reg where "reg = activeSoundPlayers ap"
  define n where "n = length insts"
  define insts1 where "insts1 = fst (stop_if_active m ap rt)"
  define rt1 where "rt1 = snd (stop_if_active m ap rt)"
  define pl where "pl = fst (create_and_start b ap rt1)"
  define insts2 where "insts2 = insts1 @ [(m, pl)]"
  define reg1 where "reg1 = AList.update m n reg"
  define reg2 where "reg2 = prune (map fst reg1) insts2 reg1"
  define ap' where "ap' = fst (snd (playSound m e ap rt))"
  define rt' where "rt' = snd (snd (playSound m e ap rt))"
  have ap': "instances ap' = insts2" "activeSoundPlayers ap' = reg2"
    unfolding ap'_def playSound_actor [OF Some]
    by (simp_all add: insts2_def insts1_def pl_def rt1_def reg2_def reg1_def n_def insts_def reg_def)
  have W1: "\<And>k i. map_of reg k = Some i \<Longrightarrow> i < n \<and> fst (insts ! i) = k"
    using wf by (simp add: wf_actor_def registry_sound_def reg_def insts_def n_def)
  have W2: "\<And>i. i < n \<Longrightarrow> isPlaying (snd (insts ! i)) \<Longrightarrow> map_of reg (fst (insts ! i)) = Some i"
    using wf by (simp add: wf_actor_def playing_registered_def reg_def insts_def n_def)
  have W3: "\<And>i s. i < n \<Longrightarrow> bufferSource (snd (insts ! i)) = Some s \<Longrightarrow> s < length (sources rt)"
    using wf by (simp add: wf_actor_def sources_allocated_def insts_def n_def)
  have len1: "length insts1 = n" by (simp add: insts1_def n_def insts_def)
  have len2: "length insts2 = Suc n" by (simp add: insts2_def len1)
  have old: "\<And>i. i < n \<Longrightarrow> insts2 ! i =
      (if map_of reg m = Some i then (fst (insts ! i), (snd (insts ! i))\<lparr>isPlaying := False\<rparr>)
       else insts ! i)"
    by (simp add: insts2_def nth_append len1 insts1_def stop_if_active_nth reg_def insts_def n_def)
  have new: "insts2 ! n = (m, pl)"
    by (simp add: insts2_def nth_append len1)
  have reg1: "\<And>k. map_of reg1 k = (if k = m then Some n else map_of reg k)"
    by (simp add: reg1_def update_conv')
  have reg2: "\<And>k. map_of reg2 k =
      (if \<exists>i. map_of reg1 k = Some i \<and> i < Suc n \<and> \<not> isPlaying (snd (insts2 ! i))
       then None else map_of reg1 k)"
  proof -
    fix k
    have "map_of reg1 k \<noteq> None \<Longrightarrow> k \<in> set (map fst reg1)"
      by (metis map_of_eq_None_iff set_map)
    then show "map_of reg2 k =
      (if \<exists>i. map_of reg1 k = Some i \<and> i < Suc n \<and> \<not> isPlaying (snd (insts2 ! i))
       then None else map_of reg1 k)"
      unfolding reg2_def prune_map_of len2 by auto
  qed
  have src_len: "length (sources rt) \<le> length (sources rt')"
    by (simp add: rt'_def playSound_sources Some)
  have pl_src: "\<And>s. bufferSource pl = Some s \<Longrightarrow> s < length (sources rt')"
    by (simp add: pl_def create_and_start_bufferSource rt'_def playSound_sources Some rt1_def
        split: if_splits)
  have "registry_sound ap'"
    unfolding registry_sound_def ap' len2
  proof (intro allI impI)
    fix k i
    assume "map_of reg2 k = Some i"
    then have r1: "map_of reg1 k = Some i"
      by (simp add: reg2 split: if_splits)
    show "i < Suc n \<and> fst (insts2 ! i) = k"
    proof (cases "k = m")
      case True
      with r1 have "i = n" by (simp add: reg1)
      with True new show ?thesis by simp
    next
      case False
      with r1 have "map_of reg k = Some i" by (simp add: reg1)
      from W1 [OF this] old [of i] show ?thesis by auto
    qed
  qed
  moreover have "playing_registered ap'"
    unfolding playing_registered_def ap' len2
  proof (intro allI impI)
    fix i
    assume i: "i < Suc n" and p: "isPlaying (snd (insts2 ! i))"
    show "map_of reg2 (fst (insts2 ! i)) = Some i"
    proof (cases "i = n")
      case True
      then have "map_of reg1 (fst (insts2 ! i)) = Some i"
        by (simp add: new reg1)
      with p show ?thesis by (simp add: reg2)
    next
      case False
      with i have lt: "i < n" by simp
      from p old [OF lt] have nm: "map_of reg m \<noteq> Some i" and same: "insts2 ! i = insts ! i"
        by (auto split: if_splits)
      from p same have "isPlaying (snd (insts ! i))" by simp
      from W2 [OF lt this] have r: "map_of reg (fst (insts ! i)) = Some i" .
      with nm have "fst (insts ! i) \<noteq> m" by auto
      with r have "map_of reg1 (fst (insts2 ! i)) = Some i"
        by (simp add: reg1 same)
      with p show ?thesis by (simp add: reg2)
    qed
  qed
  moreover have "sources_allocated (instances ap') rt'"
    unfolding sources_allocated_def ap' len2
  proof (intro allI impI)
    fix i s
    assume i: "i < Suc n" and s: "bufferSource (snd (insts2 ! i)) = Some s"
    show "s < length (sources rt')"
    proof (cases "i = n")
      case True
      with s new pl_src show ?thesis by simp
    next
      case False
      with i have lt: "i < n" by simp
      from s old [OF lt] have "bufferSource (snd (insts ! i)) = Some s"
        by (auto split: if_splits)
      from W3 [OF lt this] src_len show ?thesis by simp
    qed
  qed
  ultimately show ?thesis
    by (simp add: wf_actor_def ap'_def rt'_def)
qed

section \<open>Well-formedness is kept by every event\<close>

lemma forIn_frame:
  assumes bs: "\<And>p r. bufferSource (fst (m p r)) = bufferSource p"
    and pl: "\<And>p r. isPlaying (fst (m p r)) \<Longrightarrow> isPlaying p"
    and sl: "\<And>p r. length (sources (snd (m p r))) = length (sources r)"
  shows "length (fst (forIn ks reg m insts rt)) = length insts
     \<and> length (sources (snd (forIn ks reg m insts rt))) = length (sources rt)
     \<and> (\<forall>i < length insts.
          fst (fst (forIn ks reg m insts rt) ! i) = fst (insts ! i)
          \<and> bufferSource (snd (fst (forIn ks reg m insts rt) ! i)) = bufferSource (snd (insts ! i))
          \<and> (isPlaying (snd (fst (forIn ks reg m insts rt) ! i)) \<longrightarrow> isPlaying (snd (insts ! i))))"
proof (rule forIn_invariant
    [where Q = "\<lambda>xs r. length xs = length insts \<and> length (sources r) = length (sources rt)
       \<and> (\<forall>i < length insts. fst (xs ! i) = fst (insts ! i)
          \<and> bufferSource (snd (xs ! i)) = bufferSource (snd (insts ! i))
          \<and> (isPlaying (snd (xs ! i)) \<longrightarrow> isPlaying (snd (insts ! i))))"])
  show "length insts = length insts \<and> length (sources rt) = length (sources rt)
     \<and> (\<forall>i < length insts. fst (insts ! i) = fst (insts ! i)
          \<and> bufferSource (snd (insts ! i)) = bufferSource (snd (insts ! i))
          \<and> (isPlaying (snd (insts ! i)) \<longrightarrow> isPlaying (snd (insts ! i))))"
    by simp
next
  fix i and xs :: instance_store and r :: Runtime
  assume Q: "length xs = length insts \<and> length (sources r) = length (sources rt)
       \<and> (\<forall>i < length insts. fst (xs ! i) = fst (insts ! i)
          \<and> bufferSource (snd (xs ! i)) = bufferSource (snd (insts ! i))
          \<and> (isPlaying (snd (xs ! i)) \<longrightarrow> isPlaying (snd (insts ! i))))"
  show "length (fst (on_instance i m xs r)) = length insts
       \<and> length (sources (snd (on_instance i m xs r))) = length (sources rt)
       \<and> (\<forall>j < length insts. fst (fst (on_instance i m xs r) ! j) = fst (insts ! j)
          \<and> bufferSource (snd (fst (on_instance i m xs r) ! j)) = bufferSource (snd (insts ! j))
          \<and> (isPlaying (snd (fst (on_instance i m xs r) ! j)) \<longrightarrow> isPlaying (snd (insts ! j))))"
    using Q bs pl sl by (auto simp add: on_instance_nth on_instance_runtime)
qed

lemma wf_actor_frame:
  assumes wf: "wf_actor ap rt"
    and reg: "activeSoundPlayers ap' = activeSoundPlayers ap"
    and len: "length (instances ap') = length (instances ap)"
    and same: "\<forall>i < length (instances ap).
          fst (instances ap' ! i) = fst (instances ap ! i)
          \<and> bufferSource (snd (instances ap' ! i)) = bufferSource (snd (instances ap ! i))
          \<and> (isPlaying (snd (instances ap' ! i)) \<longrightarrow> isPlaying (snd (instances ap ! i)))"
    and src: "length (sources rt) \<le> length (sources rt')"
  shows "wf_actor ap' rt'"
proof -
  have "registry_sound ap'"
    using wf reg len same by (simp add: wf_actor_def registry_sound_def)
  moreover have "playing_registered ap'"
    using wf reg len same by (simp add: wf_actor_def playing_registered_def)
  moreover have "sources_allocated (instances ap') rt'"
    unfolding sources_allocated_def
  proof (intro allI impI)
    fix i s
    assume "i < length (instances ap')" and "bufferSource (snd (instances ap' ! i)) = Some s"
    with len same have "i < length (instances ap)" "bufferSource (snd (instances ap ! i)) = Some s"
      by auto
    with wf have "s < length (sources rt)"
      by (auto simp add: wf_actor_def sources_allocated_def)
    with src show "s < length (sources rt')" by simp
  qed
  ultimately show ?thesis by (simp add: wf_actor_def)
qed

lemma wf_actor_mono:
  assumes "wf_actor ap rt" and "length (sources rt) \<le> length (sources rt')"
  shows "wf_actor ap rt'"
  using assms(1) _ _ _ assms(2) by (rule wf_actor_frame) simp_all

lemma stopAll_sources [simp]: "length (sources (snd (stopAll ds rt))) = length (sources rt)"
  by (induction ds arbitrary: rt) (simp_all add: split_def Let_def)

lemma start_sources: "length (sources rt) \<le> length (sources (snd (start p rt)))"
  by (simp add: start_def warn_def createBufferSource_def Let_def split: option.splits)

lemma playDrumForBeats_sources:
  assumes "playDrumForBeats drum beats e ap rt = Inr (e1, rt1)"
  shows "length (sources rt) \<le> length (sources rt1)"
proof -
  from assms obtain ds where "rt1 = waitForBeats beats (e\<lparr>drumSounds := ds\<rparr>)
      (snd (start ((drumSounds e ! drum)\<lparr>outputNode := Some (node_id (effectsNode ap))\<rparr>) rt))"
    by (auto simp add: playDrumForBeats_def play_def Let_def split_def split: if_splits)
  then show ?thesis
    using start_sources by (simp add: waitForBeats_def setTimeout_def)
qed

lemma stopAllSounds_actor:
  "fst (snd (stopAllSounds e ap rt)) =
     ap\<lparr>instances := fst (forIn (map fst (activeSoundPlayers ap)) (activeSoundPlayers ap) stop
                          (instances ap) rt)\<rparr>"
  by (simp add: stopAllSounds_def Let_def split_def)

lemma stopAllSounds_sources [simp]:
  "length (sources (snd (snd (stopAllSounds e ap rt)))) = length (sources rt)"
proof -
  have "length (sources (snd (forIn (map fst (activeSoundPlayers ap)) (activeSoundPlayers ap) stop
      (instances ap) rt))) = length (sources rt)"
    using forIn_frame [of stop] by (simp add: stop_player)
  then show ?thesis by (simp add: stopAllSounds_def Let_def split_def)
qed

lemma stopAllSounds_wf:
  assumes "wf_actor ap rt"
  shows "wf_actor (fst (snd (stopAllSounds e ap rt))) (snd (snd (stopAllSounds e ap rt)))"
  using assms
proof (rule wf_actor_frame)
  note fr = forIn_frame [of stop "map fst (activeSoundPlayers ap)" "activeSoundPlayers ap"
      "instances ap" rt, simplified stop_player, simplified]
  show "activeSoundPlayers (fst (snd (stopAllSounds e ap rt))) = activeSoundPlayers ap"
    by (simp add: stopAllSounds_actor)
  show "length (instances (fst (snd (stopAllSounds e ap rt)))) = length (instances ap)"
    using fr by (simp add: stopAllSounds_actor)
  show "\<forall>i < length (instances ap).
      fst (instances (fst (snd (stopAllSounds e ap rt))) ! i) = fst (instances ap ! i)
      \<and> bufferSource (snd (instances (fst (snd (stopAllSounds e ap rt))) ! i))
          = bufferSource (snd (instances ap ! i))
      \<and> (isPlaying (snd (instances (fst (snd (stopAllSounds e ap rt))) ! i))
          \<longrightarrow> isPlaying (snd (instances ap ! i)))"
    using fr by (simp add: stopAllSounds_actor)
  show "length (sources rt) \<le> length (sources (snd (snd (stopAllSounds e ap rt))))"
    by simp
qed

lemma updatePlayer_frame:
  "bufferSource (fst (updatePlayer pe p r)) = bufferSource p"
  "isPlaying (fst (updatePlayer pe p r)) = isPlaying p"
  "length (sources (snd (updatePlayer pe p r))) = length (sources r)"
  by (simp_all add: updatePlayer_def setPlaybackRate_player)

lemma pitch_set_frame:
  "length (fst (snd (pitch_set v reg pe insts rt))) = length insts
   \<and> length (sources (snd (snd (pitch_set v reg pe insts rt)))) = length (sources rt)
   \<and> (\<forall>i < length insts.
        fst (fst (snd (pitch_set v reg pe insts rt)) ! i) = fst (insts ! i)
        \<and> bufferSource (snd (fst (snd (pitch_set v reg pe insts rt)) ! i))
            = bufferSource (snd (insts ! i))
        \<and> (isPlaying (snd (fst (snd (pitch_set v reg pe insts rt)) ! i))
            \<longrightarrow> isPlaying (snd (insts ! i))))"
  using forIn_frame [of "updatePlayer (pe\<lparr>pitch_value := v, ratio := getRatio v\<rparr>)"
      "map fst reg" reg insts rt]
  by (simp add: pitch_set_def Let_def split_def updatePlayer_frame)

lemma setEffect_wf:
  assumes "wf_actor ap rt"
  shows "wf_actor (fst (setEffect effect v ap rt)) (snd (setEffect effect v ap rt))"
  using assms
proof (rule wf_actor_frame)
  note fr = pitch_set_frame [of v "activeSoundPlayers ap" "pitchEffect ap" "instances ap" rt]
  show "activeSoundPlayers (fst (setEffect effect v ap rt)) = activeSoundPlayers ap"
    by (simp add: setEffect_def Let_def split_def)
  show "length (instances (fst (setEffect effect v ap rt))) = length (instances ap)"
    using fr by (simp add: setEffect_def Let_def split_def)
  show "\<forall>i < length (instances ap).
      fst (instances (fst (setEffect effect v ap rt)) ! i) = fst (instances ap ! i)
      \<and> bufferSource (snd (instances (fst (setEffect effect v ap rt)) ! i))
          = bufferSource (snd (instances ap ! i))
      \<and> (isPlaying (snd (instances (fst (setEffect effect v ap rt)) ! i))
          \<longrightarrow> isPlaying (snd (instances ap ! i)))"
    using fr by (simp add: setEffect_def Let_def split_def)
  show "length (sources rt) \<le> length (sources (snd (setEffect effect v ap rt)))"
    using fr by (simp add: setEffect_def Let_def split_def)
qed

lemma clearEffects_wf:
  assumes "wf_actor ap rt"
  shows "wf_actor (fst (clearEffects ap rt)) (snd (clearEffects ap rt))"
  using assms
proof (rule wf_actor_frame)
  note fr = pitch_set_frame [of 0 "activeSoundPlayers ap" "pitchEffect ap" "instances ap" rt]
  show "activeSoundPlayers (fst (clearEffects ap rt)) = activeSoundPlayers ap"
    by (simp add: clearEffects_def Let_def split_def)
  show "length (instances (fst (clearEffects ap rt))) = length (instances ap)"
    using fr by (simp add: clearEffects_def Let_def split_def)
  show "\<forall>i < length (instances ap).
      fst (instances (fst (clearEffects ap rt)) ! i) = fst (instances ap ! i)
      \<and> bufferSource (snd (instances (fst (clearEffects ap rt)) ! i))
          = bufferSource (snd (instances ap ! i))
      \<and> (isPlaying (snd (instances (fst (clearEffects ap rt)) ! i))
          \<longrightarrow> isPlaying (snd (instances ap ! i)))"
    using fr by (simp add: clearEffects_def Let_def split_def)
  show "length (sources rt) \<le> length (sources (snd (clearEffects ap rt)))"
    using fr by (simp add: clearEffects_def Let_def split_def)
qed

lemma ended_wf:
  assumes "wf_actor ap rt"
  shows "wf_actor (fst (ended i ap rt)) (snd (ended i ap rt))"
  using assms
  by (rule wf_actor_frame)
    (auto simp add: ended_def onended_handler_def nth_list_update split: option.splits)

lemma ended_sources [simp]: "length (sources (snd (ended i ap rt))) = length (sources rt)"
  by (simp add: ended_def split: option.splits)

lemma setEffect_sources [simp]:
  "length (sources (snd (setEffect effect v ap rt))) = length (sources rt)"
  using pitch_set_frame [of v "activeSoundPlayers ap" "pitchEffect ap" "instances ap" rt]
  by (simp add: setEffect_def Let_def split_def)

lemma clearEffects_sources [simp]:
  "length (sources (snd (clearEffects ap rt))) = length (sources rt)"
  using pitch_set_frame [of 0 "activeSoundPlayers ap" "pitchEffect ap" "instances ap" rt]
  by (simp add: clearEffects_def Let_def split_def)

lemma new_AudioPlayer_wf: "wf_actor (fst (new_AudioPlayer n rt)) (snd (new_AudioPlayer n rt))"
  by (simp add: new_AudioPlayer_def clearEffects_def pitch_set_def Let_def split_def
      wf_actor_def registry_sound_def playing_registered_def sources_allocated_def)

lemma new_AudioPlayer_sources [simp]:
  "length (sources (snd (new_AudioPlayer n rt))) = length (sources rt)"
  by (simp add: new_AudioPlayer_def Let_def split_def)

lemma decodeSound_run_sources [simp]:
  "length (sources (snd (decodeSound_run sound outcome e rt))) = length (sources rt)"
  by (simp add: decodeSound_run_def decodeSound_def decodeSound_settled_def warn_def
      split: decode_outcome.splits)

lemma wf_world_step:
  assumes wf: "wf_world w"
    and a: "a < length (actors w)"
    and new: "wf_actor (actors w ! a) (runtime w) \<Longrightarrow> wf_actor ap1 rt1"
    and src: "length (sources (runtime w)) \<le> length (sources rt1)"
    and w': "actors w' = (actors w)[a := ap1]" "runtime w' = rt1"
  shows "wf_world w'"
  unfolding wf_world_def
proof
  fix ap
  assume "ap \<in> set (actors w')"
  then have "ap = ap1 \<or> ap \<in> set (actors w)"
    using set_update_subset_insert [of "actors w" a ap1] w'(1) by auto
  moreover have "wf_actor (actors w ! a) (runtime w)"
    using wf a by (simp add: wf_world_def)
  ultimately show "wf_actor ap (runtime w')"
    using new wf src w'(2) by (auto simp add: wf_world_def intro: wf_actor_mono)
qed

lemma wf_world_env:
  assumes wf: "wf_world w"
    and src: "length (sources (runtime w)) \<le> length (sources (runtime w'))"
    and w': "actors w' = actors w"
  shows "wf_world w'"
  using assms by (auto simp add: wf_world_def intro: wf_actor_mono)

lemma exec_wf:
  assumes "wf_world w"
  shows "wf_world (exec ev w)"
proof (cases ev)
  case CreatePlayer
  have "wf_actor ap (snd (new_AudioPlayer (Suc (length (actors w))) (runtime w)))"
    if "ap \<in> set (actors w)" for ap
    using that assms by (auto simp add: wf_world_def intro: wf_actor_mono)
  then show ?thesis
    using CreatePlayer new_AudioPlayer_wf [of "Suc (length (actors w))" "runtime w"]
    by (auto simp add: wf_world_def split_def Let_def)
next
  case (PlaySound a m)
  show ?thesis
  proof (cases "a < length (actors w)")
    case True
    show ?thesis
      using assms True
    proof (rule wf_world_step)
      show "wf_actor (actors w ! a) (runtime w) \<Longrightarrow>
          wf_actor (fst (snd (playSound m (engine w) (actors w ! a) (runtime w))))
                   (snd (snd (playSound m (engine w) (actors w ! a) (runtime w))))"
        by (rule playSound_wf)
      show "length (sources (runtime w))
          \<le> length (sources (snd (snd (playSound m (engine w) (actors w ! a) (runtime w)))))"
        by (simp add: playSound_sources split: option.splits)
    qed (simp_all add: PlaySound True split_def Let_def)
  next
    case False
    with PlaySound assms show ?thesis by simp
  qed
next
  case (StopAllSounds a)
  show ?thesis
  proof (cases "a < length (actors w)")
    case True
    show ?thesis
      using assms True
    proof (rule wf_world_step)
      show "wf_actor (actors w ! a) (runtime w) \<Longrightarrow>
          wf_actor (fst (snd (stopAllSounds (engine w) (actors w ! a) (runtime w))))
                   (snd (snd (stopAllSounds (engine w) (actors w ! a) (runtime w))))"
        by (rule stopAllSounds_wf)
      show "length (sources (runtime w))
          \<le> length (sources (snd (snd (stopAllSounds (engine w) (actors w ! a) (runtime w)))))"
        by simp
    qed (simp_all add: StopAllSounds True split_def Let_def)
  next
    case False
    with StopAllSounds assms show ?thesis by simp
  qed
next
  case (SetEffect a effect v)
  show ?thesis
  proof (cases "a < length (actors w)")
    case True
    show ?thesis
      using assms True
    proof (rule wf_world_step)
      show "wf_actor (actors w ! a) (runtime w) \<Longrightarrow>
          wf_actor (fst (setEffect effect v (actors w ! a) (runtime w)))
                   (snd (setEffect effect v (actors w ! a) (runtime w)))"
        by (rule setEffect_wf)
      show "length (sources (runtime w))
          \<le> length (sources (snd (setEffect effect v (actors w ! a) (runtime w))))"
        by simp
    qed (simp_all add: SetEffect True split_def Let_def)
  next
    case False
    with SetEffect assms show ?thesis by simp
  qed
next
  case (ClearEffects a)
  show ?thesis
  proof (cases "a < length (actors w)")
    case True
    show ?thesis
      using assms True
    proof (rule wf_world_step)
      show "wf_actor (actors w ! a) (runtime w) \<Longrightarrow>
          wf_actor (fst (clearEffects (actors w ! a) (runtime w)))
                   (snd (clearEffects (actors w ! a) (runtime w)))"
        by (rule clearEffects_wf)
      show "length (sources (runtime w))
          \<le> length (sources (snd (clearEffects (actors w ! a) (runtime w))))"
        by simp
    qed (simp_all add: ClearEffects True split_def Let_def)
  next
    case False
    with ClearEffects assms show ?thesis by simp
  qed
next
  case (SetVolume a v)
  show ?thesis
  proof (cases "a < length (actors w)")
    case True
    show ?thesis
      using assms True
    proof (rule wf_world_step)
      show "wf_actor (actors w ! a) (runtime w) \<Longrightarrow>
          wf_actor (setVolume v (actors w ! a)) (runtime w)"
        by (simp add: setVolume_def wf_actor_def registry_sound_def playing_registered_def)
    qed (simp_all add: SetVolume True)
  next
    case False
    with SetVolume assms show ?thesis by simp
  qed
next
  case (PlayDrumForBeats a drum beats)
  show ?thesis
    using assms
  proof (rule wf_world_env)
    show "length (sources (runtime w)) \<le> length (sources (runtime (exec ev w)))"
      using playDrumForBeats_sources [of drum beats "engine w" "actors w ! a" "runtime w"]
      by (auto simp add: PlayDrumForBeats split: sum.splits)
    show "actors (exec ev w) = actors w"
      by (auto simp add: PlayDrumForBeats split: sum.splits)
  qed
next
  case (WaitForBeats beats)
  with assms show ?thesis
    by (auto simp add: waitForBeats_def setTimeout_def intro: wf_world_env)
next
  case (SetTempo v)
  with assms show ?thesis by (auto intro: wf_world_env)
next
  case (ChangeTempo v)
  with assms show ?thesis by (auto intro: wf_world_env)
next
  case (DecodeSound sound outcome)
  with assms show ?thesis by (auto simp add: split_def Let_def intro: wf_world_env)
next
  case (DrumLoaded drum au)
  with assms show ?thesis by (auto intro: wf_world_env)
next
  case (Ended a i)
  show ?thesis
  proof (cases "a < length (actors w)")
    case True
    show ?thesis
      using assms True
    proof (rule wf_world_step)
      show "wf_actor (actors w ! a) (runtime w) \<Longrightarrow>
          wf_actor (fst (ended i (actors w ! a) (runtime w)))
                   (snd (ended i (actors w ! a) (runtime w)))"
        by (rule ended_wf)
      show "length (sources (runtime w))
          \<le> length (sources (snd (ended i (actors w ! a) (runtime w))))"
        by simp
    qed (simp_all add: Ended True split_def Let_def)
  next
    case False
    with Ended assms show ?thesis by simp
  qed
qed

lemma run_wf: "wf_world w \<Longrightarrow> wf_world (run evs w)"
  unfolding run_def by (induction evs arbitrary: w) (simp_all add: exec_wf)

lemma new_World_wf: "wf_world new_World"
  by (simp add: wf_world_def new_World_def)

lemma reachable_wf: "wf_world (run evs new_World)"
  by (rule run_wf [OF new_World_wf])

section \<open>Tempo and beat-based waits\<close>

text \<open>
  C4: for every tempo above 0 and every number of beats from 0 up, \<^verbatim>\<open>beatsToSec(beats)\<close>
  is exactly \<open>(60 / tempo) * beats\<close>, the tempo being the engine's current tempo when
  the call is made.
\<close>

theorem beatsToSec_exact:
  assumes "0 < tempo" and "0 \<le> beats" and "currentTempo e = tempo"
  shows "beatsToSec e beats = (60 / tempo) * beats"
  using assms by (simp add: beatsToSec_def)

theorem beatsToSec_exact_witness:
  "(0::real) < 60 \<and> (0::real) \<le> 2 \<and> currentTempo new_AudioEngine = 60
   \<and> beatsToSec new_AudioEngine 2 = (60 / 60) * 2 \<and> beatsToSec new_AudioEngine 2 = 2"
  using beatsToSec_exact [of 60 2 new_AudioEngine] by (simp add: new_AudioEngine_def)

text \<open>
  C5: the delay of a \<^verbatim>\<open>waitForBeats(beats)\<close> wait is computed from the tempo current
  when \<^verbatim>\<open>waitForBeats\<close> is called: for a tempo above 0 the timer is armed with
  \<open>(60 / tempo) * beats * 1000\<close> milliseconds. A \<^verbatim>\<open>setTempo\<close> or \<^verbatim>\<open>changeTempo\<close> made
  while the wait is outstanding leaves the armed timer as it is; only a wait started
  afterwards gets its delay from the new tempo.
\<close>

theorem waitForBeats_delay_fixed_at_call:
  "timeouts (runtime (exec (WaitForBeats beats) w))
     = timeouts (runtime w) @ [beatsToSec (engine w) beats * 1000]
   \<and> timeouts (runtime (exec (SetTempo v) (exec (WaitForBeats beats) w)))
     = timeouts (runtime (exec (WaitForBeats beats) w))
   \<and> timeouts (runtime (exec (ChangeTempo v) (exec (WaitForBeats beats) w)))
     = timeouts (runtime (exec (WaitForBeats beats) w))
   \<and> (0 < currentTempo (engine w)
        \<longrightarrow> timeouts (runtime (exec (WaitForBeats beats) w))
              = timeouts (runtime w) @ [(60 / currentTempo (engine w)) * beats * 1000]
          \<and> timeouts (runtime (exec (SetTempo v) (exec (WaitForBeats beats) w)))
              = timeouts (runtime w) @ [(60 / currentTempo (engine w)) * beats * 1000]
          \<and> timeouts (runtime (exec (ChangeTempo v) (exec (WaitForBeats beats) w)))
              = timeouts (runtime w) @ [(60 / currentTempo (engine w)) * beats * 1000])
   \<and> (0 < currentTempo (engine w) \<and> 0 < v
        \<longrightarrow> timeouts (runtime (exec (WaitForBeats beats')
                  (exec (SetTempo v) (exec (WaitForBeats beats) w))))
              = timeouts (runtime w)
                  @ [(60 / currentTempo (engine w)) * beats * 1000, (60 / v) * beats' * 1000])
   \<and> (0 < currentTempo (engine w) \<and> 0 < currentTempo (engine w) + v
        \<longrightarrow> timeouts (runtime (exec (WaitForBeats beats')
                  (exec (ChangeTempo v) (exec (WaitForBeats beats) w))))
              = timeouts (runtime w)
                  @ [(60 / currentTempo (engine w)) * beats * 1000,
                     (60 / (currentTempo (engine w) + v)) * beats' * 1000])"
  by (simp add: waitForBeats_def setTimeout_def beatsToSec_def setTempo_def changeTempo_def)

theorem waitForBeats_delay_fixed_at_call_witness:
  "0 < currentTempo (engine new_World)
   \<and> (0::real) < 120
   \<and> 0 < currentTempo (engine new_World) + 60
   \<and> timeouts (runtime (exec (WaitForBeats 2) new_World)) = [2000]
   \<and> timeouts (runtime (exec (SetTempo 120) (exec (WaitForBeats 2) new_World))) = [2000]
   \<and> timeouts (runtime (exec (ChangeTempo 60) (exec (WaitForBeats 2) new_World))) = [2000]
   \<and> timeouts (runtime (exec (WaitForBeats 2) (exec (SetTempo 120) (exec (WaitForBeats 2) new_World))))
       = [2000, 1000]
   \<and> timeouts (runtime (exec (WaitForBeats 2) (exec (ChangeTempo 60) (exec (WaitForBeats 2) new_World))))
       = [2000, 1000]"
proof -
  have t: "currentTempo (engine new_World) = 60"
    by (simp add: new_World_def new_AudioEngine_def)
  have e: "timeouts (runtime new_World) = []"
    by (simp add: new_World_def)
  have h1: "0 < currentTempo (engine new_World)"
    by (simp add: t)
  have h2: "0 < currentTempo (engine new_World) \<and> (0::real) < 120"
    by (simp add: t)
  have h3: "0 < currentTempo (engine new_World) \<and> 0 < currentTempo (engine new_World) + 60"
    by (simp add: t)
  note c = waitForBeats_delay_fixed_at_call [of 2 new_World 120 2]
  note d = waitForBeats_delay_fixed_at_call [of 2 new_World 60 2]
  note c4 = c [THEN conjunct2, THEN conjunct2, THEN conjunct2, THEN conjunct1, THEN mp, OF h1]
  note d4 = d [THEN conjunct2, THEN conjunct2, THEN conjunct2, THEN conjunct1, THEN mp, OF h1]
  note c5 = c [THEN conjunct2, THEN conjunct2, THEN conjunct2, THEN conjunct2, THEN conjunct1,
      THEN mp, OF h2]
  note d6 = d [THEN conjunct2, THEN conjunct2, THEN conjunct2, THEN conjunct2, THEN conjunct2,
      THEN mp, OF h3]
  have 1: "timeouts (runtime (exec (WaitForBeats 2) new_World)) = [2000]"
    using c4 [THEN conjunct1] by (simp only: t e) simp
  have 2: "timeouts (runtime (exec (SetTempo 120) (exec (WaitForBeats 2) new_World))) = [2000]"
    using c4 [THEN conjunct2, THEN conjunct1] by (simp only: t e) simp
  have 3: "timeouts (runtime (exec (ChangeTempo 60) (exec (WaitForBeats 2) new_World))) = [2000]"
    using d4 [THEN conjunct2, THEN conjunct2] by (simp only: t e) simp
  have 4: "timeouts (runtime (exec (WaitForBeats 2) (exec (SetTempo 120)
      (exec (WaitForBeats 2) new_World)))) = [2000, 1000]"
    using c5 by (simp only: t e) simp
  have 5: "timeouts (runtime (exec (WaitForBeats 2) (exec (ChangeTempo 60)
      (exec (WaitForBeats 2) new_World)))) = [2000, 1000]"
    using d6 by (simp only: t e) simp
  from h1 h2 h3 1 2 3 4 5 show ?thesis by blast
qed

section \<open>Effects and volume\<close>

text \<open>
  C10: \<^verbatim>\<open>clearEffects()\<close> resets pitch to neutral and pan to centre, and it also sets the
  gain of the actor's effects node to 1, which is what \<^verbatim>\<open>setVolume(100)\<close> sets: a volume
  set by \<^verbatim>\<open>setVolume\<close> does not survive a \<^verbatim>\<open>clearEffects\<close>.
\<close>

theorem clearEffects_resets_volume:
  "gain_value (effectsNode (fst (clearEffects (setVolume v ap) rt))) = 1
   \<and> gain_value (effectsNode (setVolume 100 ap)) = 1
   \<and> pitch_value (pitchEffect (fst (clearEffects ap rt))) = 0
   \<and> ratio (pitchEffect (fst (clearEffects ap rt))) = 1
   \<and> pan_value (panEffect (fst (clearEffects ap rt))) = 0"
  by (simp add: clearEffects_def setVolume_def Let_def split_def pitch_set_effect getRatio_def pan_set_def)

section \<open>Playing a sound\<close>

text \<open>
  C6: for an md5 with no buffer in the engine's cache, \<^verbatim>\<open>playSound(md5)\<close> returns no
  playback handle, makes no sound player and registers nothing: the actor and the
  globals (nodes, warnings, timers) are as before, and nothing is raised.
\<close>

theorem playSound_unknown:
  assumes "audioBuffers e m = None"
  shows "playSound m e ap rt = (None, ap, rt)"
  using assms by (simp add: playSound_def)

theorem playSound_unknown_witness:
  "audioBuffers new_AudioEngine ''83a9787d4cb6f3b7632b4ddfebf74367.wav'' = None
   \<and> playSound ''83a9787d4cb6f3b7632b4ddfebf74367.wav'' new_AudioEngine
         (fst (new_AudioPlayer 1 (runtime new_World))) (runtime new_World)
       = (None, fst (new_AudioPlayer 1 (runtime new_World)), runtime new_World)"
  using playSound_unknown [of new_AudioEngine "''83a9787d4cb6f3b7632b4ddfebf74367.wav''"
      "fst (new_AudioPlayer 1 (runtime new_World))" "runtime new_World"]
  by (simp add: new_AudioEngine_def)

section \<open>Decoding\<close>

text \<open>
  C7: \<^verbatim>\<open>decodeSound\<close> on an asset whose format is neither the empty string nor
  \<^verbatim>\<open>adpcm\<close> reports a warning and returns without registering a buffer; and when the
  decoding fails, no entry for the asset's md5 is made in the buffer cache. The cache is
  as it was, so that for an md5 that had no entry a later \<^verbatim>\<open>playSound\<close> is the
  unknown-sound case.
\<close>

theorem decode_failure_registers_nothing:
  assumes "(sound_format sound \<noteq> [] \<and> sound_format sound \<noteq> ''adpcm'') \<or> outcome = DecodeFailed"
  shows "fst (decodeSound_run sound outcome e rt) = e
     \<and> snd (decodeSound_run sound outcome e rt)
         = warn (if sound_format sound = [] \<or> sound_format sound = ''adpcm''
                 then decode_failed_msg else unknown_format_msg) rt
     \<and> (audioBuffers e (sound_md5 sound) = None
          \<longrightarrow> playSound (sound_md5 sound) (fst (decodeSound_run sound outcome e rt)) ap rt'
                = (None, ap, rt'))"
  using assms
  by (auto simp add: decodeSound_run_def decodeSound_def decodeSound_settled_def playSound_def)

theorem decode_failure_registers_nothing_witness:
  "((sound_format \<lparr>sound_format = ''mp3'', sound_md5 = ''a.mp3''\<rparr> \<noteq> []
       \<and> sound_format \<lparr>sound_format = ''mp3'', sound_md5 = ''a.mp3''\<rparr> \<noteq> ''adpcm'')
      \<or> Decoded \<lparr>loaded = True, audio = 1\<rparr> = DecodeFailed)
   \<and> audioBuffers new_AudioEngine (sound_md5 \<lparr>sound_format = ''mp3'', sound_md5 = ''a.mp3''\<rparr>) = None
   \<and> fst (decodeSound_run \<lparr>sound_format = ''mp3'', sound_md5 = ''a.mp3''\<rparr>
        (Decoded \<lparr>loaded = True, audio = 1\<rparr>) new_AudioEngine (runtime new_World))
       = new_AudioEngine
   \<and> warnings (snd (decodeSound_run \<lparr>sound_format = ''mp3'', sound_md5 = ''a.mp3''\<rparr>
        (Decoded \<lparr>loaded = True, audio = 1\<rparr>) new_AudioEngine (runtime new_World)))
       = [''unknown sound format'']
   \<and> playSound ''a.mp3''
        (fst (decodeSound_run \<lparr>sound_format = ''mp3'', sound_md5 = ''a.mp3''\<rparr>
                (Decoded \<lparr>loaded = True, audio = 1\<rparr>) new_AudioEngine (runtime new_World)))
        (fst (new_AudioPlayer 1 (runtime new_World))) (runtime new_World)
       = (None, fst (new_AudioPlayer 1 (runtime new_World)), runtime new_World)
   \<and> ((sound_format \<lparr>sound_format = ''adpcm'', sound_md5 = ''b.wav''\<rparr> \<noteq> []
       \<and> sound_format \<lparr>sound_format = ''adpcm'', sound_md5 = ''b.wav''\<rparr> \<noteq> ''adpcm'')
      \<or> DecodeFailed = DecodeFailed)
   \<and> audioBuffers new_AudioEngine (sound_md5 \<lparr>sound_format = ''adpcm'', sound_md5 = ''b.wav''\<rparr>) = None
   \<and> fst (decodeSound_run \<lparr>sound_format = ''adpcm'', sound_md5 = ''b.wav''\<rparr> DecodeFailed
        new_AudioEngine (runtime new_World))
       = new_AudioEngine
   \<and> warnings (snd (decodeSound_run \<lparr>sound_format = ''adpcm'', sound_md5 = ''b.wav''\<rparr> DecodeFailed
        new_AudioEngine (runtime new_World)))
       = [''audio data could not be decoded'']
   \<and> playSound ''b.wav''
        (fst (decodeSound_run \<lparr>sound_format = ''adpcm'', sound_md5 = ''b.wav''\<rparr> DecodeFailed
                new_AudioEngine (runtime new_World)))
        (fst (new_AudioPlayer 1 (runtime new_World))) (runtime new_World)
       = (None, fst (new_AudioPlayer 1 (runtime new_World)), runtime new_World)"
proof -
  let ?s = "\<lparr>sound_format = ''mp3'', sound_md5 = ''a.mp3''\<rparr>"
  let ?o = "Decoded \<lparr>loaded = True, audio = 1\<rparr>"
  let ?s' = "\<lparr>sound_format = ''adpcm'', sound_md5 = ''b.wav''\<rparr>"
  have h: "(sound_format ?s \<noteq> [] \<and> sound_format ?s \<noteq> ''adpcm'') \<or> ?o = DecodeFailed"
    by simp
  have n: "audioBuffers new_AudioEngine (sound_md5 ?s) = None"
    by (simp add: new_AudioEngine_def)
  have h': "(sound_format ?s' \<noteq> [] \<and> sound_format ?s' \<noteq> ''adpcm'') \<or> DecodeFailed = DecodeFailed"
    by simp
  have n': "audioBuffers new_AudioEngine (sound_md5 ?s') = None"
    by (simp add: new_AudioEngine_def)
  note t = decode_failure_registers_nothing [OF h, of new_AudioEngine "runtime new_World"
      "fst (new_AudioPlayer 1 (runtime new_World))" "runtime new_World"]
  note t1 = t [THEN conjunct1]
  note t2 = t [THEN conjunct2, THEN conjunct1]
  note t3 = t [THEN conjunct2, THEN conjunct2, THEN mp, OF n]
  note u = decode_failure_registers_nothing [OF h', of new_AudioEngine "runtime new_World"
      "fst (new_AudioPlayer 1 (runtime new_World))" "runtime new_World"]
  note u1 = u [THEN conjunct1]
  note u2 = u [THEN conjunct2, THEN conjunct1]
  note u3 = u [THEN conjunct2, THEN conjunct2, THEN mp, OF n']
  have 2: "warnings (snd (decodeSound_run ?s ?o new_AudioEngine (runtime new_World)))
      = [''unknown sound format'']"
    unfolding t2 by (simp add: warn_def new_World_def unknown_format_msg_def)
  have 3: "playSound ''a.mp3'' (fst (decodeSound_run ?s ?o new_AudioEngine (runtime new_World)))
        (fst (new_AudioPlayer 1 (runtime new_World))) (runtime new_World)
       = (None, fst (new_AudioPlayer 1 (runtime new_World)), runtime new_World)"
    using t3 by simp
  have 4: "warnings (snd (decodeSound_run ?s' DecodeFailed new_AudioEngine (runtime new_World)))
      = [''audio data could not be decoded'']"
    unfolding u2 by (simp add: warn_def new_World_def decode_failed_msg_def)
  have 5: "playSound ''b.wav'' (fst (decodeSound_run ?s' DecodeFailed new_AudioEngine (runtime new_World)))
        (fst (new_AudioPlayer 1 (runtime new_World))) (runtime new_World)
       = (None, fst (new_AudioPlayer 1 (runtime new_World)), runtime new_World)"
    using u3 by simp
  show ?thesis using h n t1 2 3 h' n' u1 4 5 by blast
qed

section \<open>At most one playing instance per sound\<close>

lemma filter_at_most_one:
  assumes "distinct xs" and "\<And>i j. i \<in> set xs \<Longrightarrow> j \<in> set xs \<Longrightarrow> P i \<Longrightarrow> P j \<Longrightarrow> i = j"
  shows "length (filter P xs) \<le> 1"
  using assms
proof (induction xs)
  case Nil
  then show ?case by simp
next
  case (Cons x xs)
  show ?case
  proof (cases "P x")
    case True
    have "filter P xs = []"
    proof (rule ccontr)
      assume "filter P xs \<noteq> []"
      then obtain y where y: "y \<in> set xs" "P y"
        by (metis filter_False)
      with Cons.prems(2) [of x y] True have "x = y" by simp
      with y Cons.prems(1) show False by simp
    qed
    with True show ?thesis by simp
  next
    case False
    with Cons show ?thesis by simp
  qed
qed

lemma playing_instances_le_1:
  assumes "playing_registered ap"
  shows "length (playing_instances ap x) \<le> 1"
  unfolding playing_instances_def
proof (rule filter_at_most_one)
  show "distinct [0..<length (instances ap)]" by simp
next
  fix i j
  assume "i \<in> set [0..<length (instances ap)]" "j \<in> set [0..<length (instances ap)]"
    and "fst (instances ap ! i) = x \<and> isPlaying (snd (instances ap ! i))"
    and "fst (instances ap ! j) = x \<and> isPlaying (snd (instances ap ! j))"
  with assms have "map_of (activeSoundPlayers ap) x = Some i" "map_of (activeSoundPlayers ap) x = Some j"
    by (auto simp add: playing_registered_def)
  then show "i = j" by simp
qed

lemma playSound_runtime:
  assumes "audioBuffers e m = Some b"
  shows "snd (snd (playSound m e ap rt)) =
     snd (finished (fst (create_and_start b ap (snd (stop_if_active m ap rt))))
            (snd (create_and_start b ap (snd (stop_if_active m ap rt)))))"
  using assms by (simp add: playSound_def Let_def split_def)

lemma create_and_start_old:
  assumes "t < length (sources rt)"
  shows "sources (snd (create_and_start b ap rt)) ! t = sources rt ! t"
  using assms
  by (cases "loaded b")
    (simp_all add: create_and_start_loaded create_and_start_not_loaded warn_def nth_append)

lemma finished_state [simp]:
  "src_state (sources (snd (finished p rt)) ! t) = src_state (sources rt ! t)"
  by (cases "bufferSource p")
    (simp_all add: finished_started finished_not_started on_source_nth)

lemma playSound_old_state:
  assumes "audioBuffers e m = Some b" and "t < length (sources rt)"
  shows "src_state (sources (snd (snd (playSound m e ap rt))) ! t)
     = src_state (sources (snd (stop_if_active m ap rt)) ! t)"
  using assms by (simp add: playSound_runtime create_and_start_old)

lemma exec_PlaySound_actor:
  assumes "a < length (actors w)"
  shows "actors (exec (PlaySound a m) w) ! a
      = fst (snd (playSound m (engine w) (actors w ! a) (runtime w)))"
    and "runtime (exec (PlaySound a m) w)
      = snd (snd (playSound m (engine w) (actors w ! a) (runtime w)))"
  using assms by (simp_all add: split_def Let_def)

text \<open>
  C1: for every actor and every sound identity \<open>x\<close>, in every state the system reaches
  at most one sound player that the actor made for \<open>x\<close> is in playing state; and
  whenever \<^verbatim>\<open>playSound(x)\<close> is called while an instance for \<open>x\<close> is registered as
  active for the actor, that instance is stopped (its flag cleared, its node silent) in
  the state in which the new instance is then created and started, and it stays so
  when the call has returned.
\<close>

theorem one_playing_instance_per_sound:
  assumes a: "a < length (actors (run evs new_World))"
  shows "length (playing_instances (actors (run evs new_World) ! a) x) \<le> 1
     \<and> (\<forall>i b. map_of (activeSoundPlayers (actors (run evs new_World) ! a)) x = Some i
            \<and> audioBuffers (engine (run evs new_World)) x = Some b
        \<longrightarrow> i < length (instances (actors (run evs new_World) ! a))
          \<and> \<not> isPlaying (snd (fst (stop_if_active x (actors (run evs new_World) ! a)
                                      (runtime (run evs new_World))) ! i))
          \<and> (\<forall>s. bufferSource (snd (instances (actors (run evs new_World) ! a) ! i)) = Some s
                \<longrightarrow> src_state (sources (snd (stop_if_active x (actors (run evs new_World) ! a)
                                      (runtime (run evs new_World)))) ! s) = Silent)
          \<and> instances (actors (exec (PlaySound a x) (run evs new_World)) ! a)
              = fst (stop_if_active x (actors (run evs new_World) ! a) (runtime (run evs new_World)))
                @ [(x, fst (create_and_start b (actors (run evs new_World) ! a)
                        (snd (stop_if_active x (actors (run evs new_World) ! a)
                               (runtime (run evs new_World))))))]
          \<and> \<not> isPlaying (snd (instances (actors (exec (PlaySound a x) (run evs new_World)) ! a) ! i))
          \<and> (\<forall>s. bufferSource (snd (instances (actors (run evs new_World) ! a) ! i)) = Some s
                \<longrightarrow> src_state (sources (runtime (exec (PlaySound a x) (run evs new_World))) ! s)
                      = Silent))"
proof -
  let ?w = "run evs new_World"
  let ?ap = "actors ?w ! a"
  let ?rt = "runtime ?w"
  have "wf_world ?w" by (rule reachable_wf)
  with a have wf: "wf_actor ?ap ?rt"
    by (simp add: wf_world_def)
  note ex = exec_PlaySound_actor [OF a, of x]
  have one: "length (playing_instances ?ap x) \<le> 1"
    using wf playing_instances_le_1 [of ?ap x] by (simp add: wf_actor_def)
  have step: "i < length (instances ?ap)
      \<and> \<not> isPlaying (snd (fst (stop_if_active x ?ap ?rt) ! i))
      \<and> (\<forall>s. bufferSource (snd (instances ?ap ! i)) = Some s
            \<longrightarrow> src_state (sources (snd (stop_if_active x ?ap ?rt)) ! s) = Silent)
      \<and> instances (actors (exec (PlaySound a x) ?w) ! a)
          = fst (stop_if_active x ?ap ?rt) @ [(x, fst (create_and_start b ?ap (snd (stop_if_active x ?ap ?rt))))]
      \<and> \<not> isPlaying (snd (instances (actors (exec (PlaySound a x) ?w) ! a) ! i))
      \<and> (\<forall>s. bufferSource (snd (instances ?ap ! i)) = Some s
            \<longrightarrow> src_state (sources (runtime (exec (PlaySound a x) ?w)) ! s) = Silent)"
    if reg: "map_of (activeSoundPlayers ?ap) x = Some i" and buf: "audioBuffers (engine ?w) x = Some b"
    for i b
  proof -
    from wf reg have i: "i < length (instances ?ap)"
      by (simp add: wf_actor_def registry_sound_def)
    have stopped: "\<not> isPlaying (snd (fst (stop_if_active x ?ap ?rt) ! i))"
      using reg i by (simp add: stop_if_active_nth)
    have alloc: "s < length (sources ?rt)" if "bufferSource (snd (instances ?ap ! i)) = Some s" for s
      using wf i that by (auto simp add: wf_actor_def sources_allocated_def)
    have silent: "src_state (sources (snd (stop_if_active x ?ap ?rt)) ! s) = Silent"
      if "bufferSource (snd (instances ?ap ! i)) = Some s" for s
      using reg i that alloc [OF that] by (auto simp add: stop_if_active_state)
    have insts: "instances (actors (exec (PlaySound a x) ?w) ! a)
        = fst (stop_if_active x ?ap ?rt) @ [(x, fst (create_and_start b ?ap (snd (stop_if_active x ?ap ?rt))))]"
      unfolding ex playSound_actor [OF buf] by simp
    have after: "\<not> isPlaying (snd (instances (actors (exec (PlaySound a x) ?w) ! a) ! i))"
      unfolding insts using stopped i by (simp add: nth_append)
    have silent': "src_state (sources (runtime (exec (PlaySound a x) ?w)) ! s) = Silent"
      if "bufferSource (snd (instances ?ap ! i)) = Some s" for s
      unfolding ex using silent [OF that] alloc [OF that]
      by (simp add: playSound_old_state [OF buf])
    from i stopped silent insts after silent' show ?thesis by blast
  qed
  from one step show ?thesis by blast
qed

theorem one_playing_instance_per_sound_witness:
  "0 < length (actors world_playing)
   \<and> map_of (activeSoundPlayers (actors world_playing ! 0)) ''a.wav'' = Some 0
   \<and> audioBuffers (engine world_playing) ''a.wav'' = Some \<lparr>loaded = True, audio = 1\<rparr>
   \<and> bufferSource (snd (instances (actors world_playing ! 0) ! 0)) = Some 0
   \<and> isPlaying (snd (instances (actors world_playing ! 0) ! 0))
   \<and> length (playing_instances (actors world_playing ! 0) ''a.wav'') \<le> 1
   \<and> \<not> isPlaying (snd (instances (actors (exec (PlaySound 0 ''a.wav'') world_playing) ! 0) ! 0))
   \<and> src_state (sources (runtime (exec (PlaySound 0 ''a.wav'') world_playing)) ! 0) = Silent"
proof -
  have w: "world_playing = run [CreatePlayer,
      DecodeSound sound_a (Decoded \<lparr>loaded = True, audio = 1\<rparr>), PlaySound 0 ''a.wav''] new_World"
    by (simp add: world_playing_def)
  have h1: "0 < length (actors world_playing)"
    by (simp add: eval_defs)
  have h2: "map_of (activeSoundPlayers (actors world_playing ! 0)) ''a.wav'' = Some 0"
    by (simp add: eval_defs)
  have h3: "audioBuffers (engine world_playing) ''a.wav'' = Some \<lparr>loaded = True, audio = 1\<rparr>"
    by (simp add: eval_defs)
  have h4: "bufferSource (snd (instances (actors world_playing ! 0) ! 0)) = Some 0"
    by (simp add: eval_defs)
  have h5: "isPlaying (snd (instances (actors world_playing ! 0) ! 0))"
    by (simp add: eval_defs)
  note t = one_playing_instance_per_sound [OF h1 [unfolded w], of "''a.wav''", folded w]
  from t have c1: "length (playing_instances (actors world_playing ! 0) ''a.wav'') \<le> 1"
    by (rule conjunct1)
  from t h2 h3 h4
  have c2: "\<not> isPlaying (snd (instances (actors (exec (PlaySound 0 ''a.wav'') world_playing) ! 0) ! 0))"
    and c3: "src_state (sources (runtime (exec (PlaySound 0 ''a.wav'') world_playing)) ! 0) = Silent"
    by blast+
  from h1 h2 h3 h4 h5 c1 c2 c3 show ?thesis by blast
qed

section \<open>The registry after playSound\<close>

lemma playSound_registry:
  assumes "audioBuffers e m = Some b"
  shows "map_of (activeSoundPlayers (fst (snd (playSound m e ap rt)))) k =
     (if \<exists>i. map_of (AList.update m (length (instances ap)) (activeSoundPlayers ap)) k = Some i
            \<and> i < length (instances (fst (snd (playSound m e ap rt))))
            \<and> \<not> isPlaying (snd (instances (fst (snd (playSound m e ap rt))) ! i))
      then None
      else map_of (AList.update m (length (instances ap)) (activeSoundPlayers ap)) k)"
proof -
  let ?reg1 = "AList.update m (length (instances ap)) (activeSoundPlayers ap)"
  have "map_of ?reg1 k \<noteq> None \<Longrightarrow> k \<in> set (map fst ?reg1)"
    by (metis map_of_eq_None_iff set_map)
  then show ?thesis
    unfolding playSound_actor [OF assms] by (auto simp add: prune_map_of)
qed

text \<open>
  C9, as amended: after a call of \<^verbatim>\<open>playSound(md5)\<close> for an md5 that has a buffer in
  the engine's cache, every sound player left in the actor's registry is in playing
  state. In particular a new player whose \<^verbatim>\<open>start()\<close> did nothing, because the buffer
  was not loaded, is registered under the md5 and removed again by the pruning loop of
  the same call.
\<close>

theorem playSound_registry_playing_only:
  assumes a: "a < length (actors (run evs new_World))"
    and buf: "audioBuffers (engine (run evs new_World)) m = Some b"
  shows "(\<forall>k i. map_of (activeSoundPlayers (actors (exec (PlaySound a m) (run evs new_World)) ! a)) k
              = Some i
          \<longrightarrow> i < length (instances (actors (exec (PlaySound a m) (run evs new_World)) ! a))
            \<and> isPlaying (snd (instances (actors (exec (PlaySound a m) (run evs new_World)) ! a) ! i)))
     \<and> (\<not> loaded b
          \<longrightarrow> instances (actors (exec (PlaySound a m) (run evs new_World)) ! a)
                  ! length (instances (actors (run evs new_World) ! a))
                = (m, fst (create_and_start b (actors (run evs new_World) ! a)
                        (snd (stop_if_active m (actors (run evs new_World) ! a)
                               (runtime (run evs new_World))))))
            \<and> \<not> isPlaying (fst (create_and_start b (actors (run evs new_World) ! a)
                        (snd (stop_if_active m (actors (run evs new_World) ! a)
                               (runtime (run evs new_World))))))
            \<and> map_of (AList.update m (length (instances (actors (run evs new_World) ! a)))
                        (activeSoundPlayers (actors (run evs new_World) ! a))) m
                = Some (length (instances (actors (run evs new_World) ! a)))
            \<and> map_of (activeSoundPlayers (actors (exec (PlaySound a m) (run evs new_World)) ! a)) m
                = None)"
proof -
  let ?w = "run evs new_World"
  let ?ap = "actors ?w ! a"
  let ?rt = "runtime ?w"
  let ?ap' = "fst (snd (playSound m (engine ?w) ?ap ?rt))"
  let ?pl = "fst (create_and_start b ?ap (snd (stop_if_active m ?ap ?rt)))"
  note ex = exec_PlaySound_actor [OF a, of m]
  have "wf_world ?w" by (rule reachable_wf)
  with a have "wf_actor ?ap ?rt"
    by (simp add: wf_world_def)
  from playSound_wf [OF this, of m "engine ?w"] have wf': "registry_sound ?ap'"
    by (simp add: wf_actor_def)
  have playing: "i < length (instances ?ap') \<and> isPlaying (snd (instances ?ap' ! i))"
    if "map_of (activeSoundPlayers ?ap') k = Some i" for k i
  proof -
    from wf' that have i: "i < length (instances ?ap')"
      by (simp add: registry_sound_def)
    from that have "\<not> (i < length (instances ?ap') \<and> \<not> isPlaying (snd (instances ?ap' ! i)))"
      unfolding playSound_registry [OF buf] by (auto split: if_splits)
    with i show ?thesis by simp
  qed
  have insts: "instances ?ap' = fst (stop_if_active m ?ap ?rt) @ [(m, ?pl)]"
    unfolding playSound_actor [OF buf] by simp
  have new: "instances ?ap' ! length (instances ?ap) = (m, ?pl)"
    unfolding insts by (simp add: nth_append)
  have reg1: "map_of (AList.update m (length (instances ?ap)) (activeSoundPlayers ?ap)) m
      = Some (length (instances ?ap))"
    by (simp add: update_conv')
  have gone: "map_of (activeSoundPlayers ?ap') m = None" if "\<not> loaded b"
  proof -
    from that have "\<not> isPlaying ?pl"
      by (simp add: create_and_start_isPlaying)
    then have "\<not> isPlaying (snd (instances ?ap' ! length (instances ?ap)))"
      by (simp add: new)
    moreover have "length (instances ?ap) < length (instances ?ap')"
      by (simp add: insts)
    ultimately show ?thesis
      unfolding playSound_registry [OF buf] using reg1 by auto
  qed
  have idle: "\<not> isPlaying ?pl" if "\<not> loaded b"
    using that by (simp add: create_and_start_isPlaying)
  from playing new reg1 gone idle show ?thesis
    unfolding ex by blast
qed

theorem playSound_registry_playing_only_witness:
  "0 < length (actors world_playing)
   \<and> audioBuffers (engine world_playing) ''a.wav'' = Some \<lparr>loaded = True, audio = 1\<rparr>
   \<and> map_of (activeSoundPlayers (actors (exec (PlaySound 0 ''a.wav'') world_playing) ! 0)) ''a.wav''
       = Some 1
   \<and> isPlaying (snd (instances (actors (exec (PlaySound 0 ''a.wav'') world_playing) ! 0) ! 1))
   \<and> 0 < length (actors world_unloaded)
   \<and> audioBuffers (engine world_unloaded) ''a.wav'' = Some \<lparr>loaded = False, audio = 1\<rparr>
   \<and> \<not> loaded \<lparr>loaded = False, audio = 1\<rparr>
   \<and> map_of (activeSoundPlayers (actors (exec (PlaySound 0 ''a.wav'') world_unloaded) ! 0)) ''a.wav''
       = None"
proof -
  have w: "world_playing = run [CreatePlayer,
      DecodeSound sound_a (Decoded \<lparr>loaded = True, audio = 1\<rparr>), PlaySound 0 ''a.wav''] new_World"
    by (simp add: world_playing_def)
  have u: "world_unloaded = run [CreatePlayer,
      DecodeSound sound_a (Decoded \<lparr>loaded = False, audio = 1\<rparr>)] new_World"
    by (simp add: world_unloaded_def)
  have h1: "0 < length (actors world_playing)"
    by (simp add: eval_defs)
  have h2: "audioBuffers (engine world_playing) ''a.wav'' = Some \<lparr>loaded = True, audio = 1\<rparr>"
    by (simp add: eval_defs)
  have h3: "map_of (activeSoundPlayers (actors (exec (PlaySound 0 ''a.wav'') world_playing) ! 0))
      ''a.wav'' = Some 1"
    by (simp add: eval_defs)
  have g1: "0 < length (actors world_unloaded)"
    by (simp add: eval_defs)
  have g2: "audioBuffers (engine world_unloaded) ''a.wav'' = Some \<lparr>loaded = False, audio = 1\<rparr>"
    by (simp add: eval_defs)
  have g3: "\<not> loaded \<lparr>loaded = False, audio = 1\<rparr>"
    by simp
  note t = playSound_registry_playing_only [OF h1 [unfolded w] h2 [unfolded w], folded w]
  note t' = playSound_registry_playing_only [OF g1 [unfolded u] g2 [unfolded u], folded u]
  from t h3
  have c1: "isPlaying (snd (instances (actors (exec (PlaySound 0 ''a.wav'') world_playing) ! 0) ! 1))"
    by blast
  from t' g3
  have c2: "map_of (activeSoundPlayers (actors (exec (PlaySound 0 ''a.wav'') world_unloaded) ! 0))
      ''a.wav'' = None"
    by blast
  from h1 h2 h3 c1 g1 g2 g3 c2 show ?thesis by blast
qed

text \<open>
  C9, as stated, fails for a call that returns at the first guard: the actor has played
  \<^verbatim>\<open>a.wav\<close> and then called \<^verbatim>\<open>stopAllSounds()\<close>, which leaves the stopped player in the
  registry; \<^verbatim>\<open>playSound\<close> of a sound with no buffer returns before the pruning loop,
  and the registry still holds the player that is not playing.
\<close>

theorem playSound_unknown_keeps_stopped_entry:
  "fst (playSound ''b.wav'' (engine world_stopped) (actors world_stopped ! 0) (runtime world_stopped))
     = None
   \<and> map_of (activeSoundPlayers (actors (exec (PlaySound 0 ''b.wav'') world_stopped) ! 0)) ''a.wav''
     = Some 0
   \<and> \<not> isPlaying (snd (instances (actors (exec (PlaySound 0 ''b.wav'') world_stopped) ! 0) ! 0))"
  by (simp add: eval_defs)

section \<open>A buffer that is registered but not loaded\<close>


section \<open>Stopping the shared drum bank\<close>

lemma stopAll_players: "fst (stopAll ds rt) = map (\<lambda>d. d\<lparr>isPlaying := False\<rparr>) ds"
  by (induction ds arbitrary: rt) (simp_all add: split_def Let_def stop_player)

lemma stopAll_keeps_silent:
  assumes "src_state (sources rt ! s) = Silent"
  shows "src_state (sources (snd (stopAll ds rt)) ! s) = Silent"
  using assms
  by (induction ds arbitrary: rt) (simp_all add: split_def Let_def stop_state)

lemma stopAll_silences:
  assumes "d \<in> set ds" and "bufferSource d = Some s" and "s < length (sources rt)"
  shows "src_state (sources (snd (stopAll ds rt)) ! s) = Silent"
  using assms
proof (induction ds arbitrary: rt)
  case Nil
  then show ?case by simp
next
  case (Cons d' ds)
  show ?case
  proof (cases "d' = d")
    case True
    with Cons.prems have "src_state (sources (snd (stop d' rt)) ! s) = Silent"
      by (simp add: stop_state)
    then show ?thesis
      by (simp add: split_def Let_def stopAll_keeps_silent)
  next
    case False
    with Cons.prems have "d \<in> set ds" by simp
    from Cons.IH [OF this Cons.prems(2), of "snd (stop d' rt)"] Cons.prems(3) show ?thesis
      by (simp add: split_def Let_def)
  qed
qed

lemma forIn_stop_visits:
  assumes k: "k \<in> set ks" and reg: "map_of reg k = Some i" and i: "i < length insts"
  shows "\<not> isPlaying (snd (fst (forIn ks reg stop insts rt) ! i))
     \<and> (\<forall>s. bufferSource (snd (fst (forIn ks reg stop insts rt) ! i)) = Some s
           \<longrightarrow> s < length (sources (snd (forIn ks reg stop insts rt)))
           \<longrightarrow> src_state (sources (snd (forIn ks reg stop insts rt)) ! s) = Silent)"
proof -
  let ?P = "\<lambda>(xs :: instance_store) (r :: Runtime).
      i < length xs \<and> \<not> isPlaying (snd (xs ! i))
      \<and> (\<forall>s. bufferSource (snd (xs ! i)) = Some s \<longrightarrow> s < length (sources r)
            \<longrightarrow> src_state (sources r ! s) = Silent)"
  have est: "?P (fst (on_instance i stop xs r)) (snd (on_instance i stop xs r))"
    if "i < length xs" for xs r
    using that by (simp add: on_instance_nth on_instance_runtime stop_player stop_state)
  have pres: "?P (fst (on_instance j stop xs r)) (snd (on_instance j stop xs r))"
    if "?P xs r" for j xs r
  proof (cases "j = i")
    case True
    with that est [of xs r] show ?thesis by simp
  next
    case False
    with that show ?thesis
      by (simp add: on_instance_nth on_instance_runtime stop_state)
  qed
  have "?P (fst (forIn ks reg stop insts rt)) (snd (forIn ks reg stop insts rt))"
    using k reg est pres i by (rule forIn_visits [where P = ?P])
  then show ?thesis by simp
qed

text \<open>
  What \<^verbatim>\<open>stopAllSounds()\<close> does reach: every sound player of the actor's registry is
  stopped and its node is silent; the instrument bank has no note in flight; every
  sound player of the drum bank is stopped and the node it refers to is silent.
\<close>

lemma stopAllSounds_reaches:
  assumes wf: "wf_actor ap rt"
  shows "(\<forall>k i. map_of (activeSoundPlayers ap) k = Some i
          \<longrightarrow> \<not> isPlaying (snd (instances (fst (snd (stopAllSounds e ap rt))) ! i))
            \<and> (\<forall>s. bufferSource (snd (instances ap ! i)) = Some s
                  \<longrightarrow> src_state (sources (snd (snd (stopAllSounds e ap rt))) ! s) = Silent))
     \<and> notes_in_flight (instrumentPlayer (fst (stopAllSounds e ap rt))) = []
     \<and> drumSounds (fst (stopAllSounds e ap rt)) = map (\<lambda>d. d\<lparr>isPlaying := False\<rparr>) (drumSounds e)
     \<and> (\<forall>d s. d \<in> set (drumSounds e) \<and> bufferSource d = Some s \<and> s < length (sources rt)
          \<longrightarrow> src_state (sources (snd (snd (stopAllSounds e ap rt))) ! s) = Silent)"
proof -
  let ?reg = "activeSoundPlayers ap"
  let ?res = "forIn (map fst ?reg) ?reg stop (instances ap) rt"
  have e': "fst (stopAllSounds e ap rt) =
      e\<lparr>instrumentPlayer := instrument_stopAll (instrumentPlayer e),
        drumSounds := fst (stopAll (drumSounds e) (snd ?res))\<rparr>"
    by (simp add: stopAllSounds_def Let_def split_def)
  have rt': "snd (snd (stopAllSounds e ap rt)) = snd (stopAll (drumSounds e) (snd ?res))"
    by (simp add: stopAllSounds_def Let_def split_def)
  note fr = forIn_frame [of stop "map fst ?reg" ?reg "instances ap" rt, simplified stop_player,
      simplified]
  have each: "\<not> isPlaying (snd (instances (fst (snd (stopAllSounds e ap rt))) ! i))
      \<and> (\<forall>s. bufferSource (snd (instances ap ! i)) = Some s
            \<longrightarrow> src_state (sources (snd (snd (stopAllSounds e ap rt))) ! s) = Silent)"
    if reg: "map_of ?reg k = Some i" for k i
  proof -
    from wf reg have i: "i < length (instances ap)"
      by (simp add: wf_actor_def registry_sound_def)
    from reg have k: "k \<in> set (map fst ?reg)"
      by (metis map_of_eq_None_iff option.distinct(1) set_map)
    note v = forIn_stop_visits [OF k reg i, of rt]
    from fr i have bs: "bufferSource (snd (fst ?res ! i)) = bufferSource (snd (instances ap ! i))"
      by simp
    have "src_state (sources (snd (stopAll (drumSounds e) (snd ?res))) ! s) = Silent"
      if s: "bufferSource (snd (instances ap ! i)) = Some s" for s
    proof -
      from wf i s have "s < length (sources rt)"
        by (auto simp add: wf_actor_def sources_allocated_def)
      with fr have "s < length (sources (snd ?res))" by simp
      with v s bs have "src_state (sources (snd ?res) ! s) = Silent" by simp
      then show ?thesis by (rule stopAll_keeps_silent)
    qed
    with v show ?thesis
      unfolding rt' by (simp add: stopAllSounds_actor)
  qed
  have drums: "src_state (sources (snd (snd (stopAllSounds e ap rt))) ! s) = Silent"
    if "d \<in> set (drumSounds e)" "bufferSource d = Some s" "s < length (sources rt)" for d s
  proof -
    from that(3) fr have "s < length (sources (snd ?res))" by simp
    from stopAll_silences [OF that(1,2) this] show ?thesis
      unfolding rt' .
  qed
  have inst: "notes_in_flight (instrumentPlayer (fst (stopAllSounds e ap rt))) = []"
    by (simp add: e' instrument_stopAll_def)
  have bank: "drumSounds (fst (stopAllSounds e ap rt)) = map (\<lambda>d. d\<lparr>isPlaying := False\<rparr>) (drumSounds e)"
    by (simp add: e' stopAll_players)
  from each drums inst bank show ?thesis by blast
qed

text \<open>
  C8 at a failing input: the file of drum 0 has arrived, actor 0 plays drum 0 and then
  actor 1 plays drum 0. The second \<^verbatim>\<open>start()\<close> overwrites the \<^verbatim>\<open>bufferSource\<close> of the
  bank's player for drum 0, so the node of the first note is no longer referred to.
  \<^verbatim>\<open>stopAllSounds()\<close> of either actor stops the node the bank refers to; the node of the
  first note, which plays through the effects node of actor 0, is still sounding.
\<close>

theorem stopAllSounds_misses_retriggered_drum:
  "map src_state (sources (runtime world_drums)) = [Sounding, Sounding]
   \<and> map src_destination (sources (runtime world_drums)) = [Some 1, Some 2]
   \<and> bufferSource (drumSounds (engine world_drums) ! 0) = Some 1
   \<and> map src_state (sources (runtime (exec (StopAllSounds 0) world_drums))) = [Sounding, Silent]
   \<and> map src_state (sources (runtime (exec (StopAllSounds 1) world_drums))) = [Sounding, Silent]"
  by (simp add: eval_defs numeral_eq_Suc)

section \<open>Setting the pitch effect\<close>

lemma forIn_updatePlayer_state:
  "src_state (sources (snd (forIn ks reg (updatePlayer pe) insts rt)) ! s)
     = src_state (sources rt ! s)"
proof -
  have "\<forall>s. src_state (sources (snd (forIn ks reg (updatePlayer pe) insts rt)) ! s)
     = src_state (sources rt ! s)"
  proof (rule forIn_invariant
      [where Q = "\<lambda>xs r. \<forall>s. src_state (sources r ! s) = src_state (sources rt ! s)"])
    show "\<forall>s. src_state (sources rt ! s) = src_state (sources rt ! s)" by simp
  next
    fix i and xs :: instance_store and r :: Runtime
    assume "\<forall>s. src_state (sources r ! s) = src_state (sources rt ! s)"
    then show "\<forall>s. src_state (sources (snd (on_instance i (updatePlayer pe) xs r)) ! s)
        = src_state (sources rt ! s)"
      by (simp add: on_instance_runtime updatePlayer_def)
  qed
  then show ?thesis by simp
qed

lemma forIn_updatePlayer_rate:
  assumes k: "k \<in> set ks" and reg: "map_of reg k = Some i" and i: "i < length insts"
  shows "playbackRate (snd (fst (forIn ks reg (updatePlayer pe) insts rt) ! i)) = ratio pe
     \<and> (\<forall>s. bufferSource (snd (fst (forIn ks reg (updatePlayer pe) insts rt) ! i)) = Some s
           \<longrightarrow> s < length (sources (snd (forIn ks reg (updatePlayer pe) insts rt)))
           \<longrightarrow> src_playbackRate (sources (snd (forIn ks reg (updatePlayer pe) insts rt)) ! s)
                 = ratio pe)"
proof -
  let ?P = "\<lambda>(xs :: instance_store) (r :: Runtime).
      i < length xs \<and> playbackRate (snd (xs ! i)) = ratio pe
      \<and> (\<forall>s. bufferSource (snd (xs ! i)) = Some s \<longrightarrow> s < length (sources r)
            \<longrightarrow> src_playbackRate (sources r ! s) = ratio pe)"
  have est: "?P (fst (on_instance i (updatePlayer pe) xs r)) (snd (on_instance i (updatePlayer pe) xs r))"
    if "i < length xs" for xs r
    using that
    by (simp add: on_instance_nth on_instance_runtime updatePlayer_def setPlaybackRate_player
        setPlaybackRate_rate)
  have pres: "?P (fst (on_instance j (updatePlayer pe) xs r)) (snd (on_instance j (updatePlayer pe) xs r))"
    if "?P xs r" for j xs r
  proof (cases "j = i")
    case True
    with that est [of xs r] show ?thesis by simp
  next
    case False
    with that show ?thesis
      by (simp add: on_instance_nth on_instance_runtime updatePlayer_def setPlaybackRate_rate)
  qed
  have "?P (fst (forIn ks reg (updatePlayer pe) insts rt)) (snd (forIn ks reg (updatePlayer pe) insts rt))"
    using k reg est pres i by (rule forIn_visits [where P = ?P])
  then show ?thesis by simp
qed

lemma pitch_set_applies:
  assumes reg: "map_of reg k = Some i" and i: "i < length insts"
    and alloc: "sources_allocated insts rt"
  shows "playbackRate (snd (fst (snd (pitch_set v reg pe insts rt)) ! i)) = getRatio v
     \<and> bufferSource (snd (fst (snd (pitch_set v reg pe insts rt)) ! i)) = bufferSource (snd (insts ! i))
     \<and> (\<forall>s. bufferSource (snd (insts ! i)) = Some s
           \<longrightarrow> src_playbackRate (sources (snd (snd (pitch_set v reg pe insts rt))) ! s) = getRatio v
             \<and> src_state (sources (snd (snd (pitch_set v reg pe insts rt))) ! s)
                 = src_state (sources rt ! s))"
proof -
  let ?pe = "pe\<lparr>pitch_value := v, ratio := getRatio v\<rparr>"
  let ?res = "forIn (map fst reg) reg (updatePlayer ?pe) insts rt"
  have res: "fst (snd (pitch_set v reg pe insts rt)) = fst ?res"
    "snd (snd (pitch_set v reg pe insts rt)) = snd ?res"
    by (simp_all add: pitch_set_def Let_def split_def)
  from reg have k: "k \<in> set (map fst reg)"
    by (metis map_of_eq_None_iff option.distinct(1) set_map)
  note rate = forIn_updatePlayer_rate [OF k reg i, of ?pe rt]
  note fr = pitch_set_frame [of v reg pe insts rt, unfolded res]
  from fr i have bs: "bufferSource (snd (fst ?res ! i)) = bufferSource (snd (insts ! i))"
    by simp
  have "src_playbackRate (sources (snd ?res) ! s) = getRatio v"
    if s: "bufferSource (snd (insts ! i)) = Some s" for s
  proof -
    from alloc i s have "s < length (sources rt)"
      by (auto simp add: sources_allocated_def)
    with fr have "s < length (sources (snd ?res))" by simp
    with rate s bs show ?thesis by simp
  qed
  with rate bs show ?thesis
    unfolding res by (simp add: forIn_updatePlayer_state)
qed

lemma exec_SetEffect_actor:
  assumes "a < length (actors w)"
  shows "actors (exec (SetEffect a effect v) w) ! a = fst (setEffect effect v (actors w ! a) (runtime w))"
    and "runtime (exec (SetEffect a effect v) w) = snd (setEffect effect v (actors w ! a) (runtime w))"
  using assms by (simp_all add: split_def Let_def)

lemma setEffect_pitch:
  "fst (setEffect ''pitch'' v ap rt) =
     ap\<lparr>pitchEffect := fst (pitch_set v (activeSoundPlayers ap) (pitchEffect ap) (instances ap) rt),
        instances := fst (snd (pitch_set v (activeSoundPlayers ap) (pitchEffect ap) (instances ap) rt))\<rparr>"
  "snd (setEffect ''pitch'' v ap rt) =
     snd (snd (pitch_set v (activeSoundPlayers ap) (pitchEffect ap) (instances ap) rt))"
  by (simp_all add: setEffect_def Let_def split_def)

text \<open>
  C3: setting the pitch effect to \<open>p\<close> derives the rate \<open>2^(p/120)\<close>, which is exactly
  2 for \<open>p = 120\<close>, and applies it at once to every sound player in the actor's
  registry: the player's rate and the rate of its node are the derived rate, while the
  player keeps its node, the node keeps its playback state, and no node is made.
\<close>

theorem setEffect_pitch_retunes_active:
  assumes a: "a < length (actors (run evs new_World))"
  shows "getRatio 120 = 2
     \<and> ratio (pitchEffect (actors (exec (SetEffect a ''pitch'' p) (run evs new_World)) ! a))
         = 2 powr (p / 120)
     \<and> (\<forall>k i. map_of (activeSoundPlayers (actors (run evs new_World) ! a)) k = Some i
          \<longrightarrow> playbackRate (snd (instances (actors (exec (SetEffect a ''pitch'' p) (run evs new_World)) ! a) ! i))
                = 2 powr (p / 120)
            \<and> bufferSource (snd (instances (actors (exec (SetEffect a ''pitch'' p) (run evs new_World)) ! a) ! i))
                = bufferSource (snd (instances (actors (run evs new_World) ! a) ! i))
            \<and> (\<forall>s. bufferSource (snd (instances (actors (run evs new_World) ! a) ! i)) = Some s
                  \<longrightarrow> src_playbackRate
                        (sources (runtime (exec (SetEffect a ''pitch'' p) (run evs new_World))) ! s)
                      = 2 powr (p / 120)
                    \<and> src_state (sources (runtime (exec (SetEffect a ''pitch'' p) (run evs new_World))) ! s)
                      = src_state (sources (runtime (run evs new_World)) ! s)))
     \<and> activeSoundPlayers (actors (exec (SetEffect a ''pitch'' p) (run evs new_World)) ! a)
         = activeSoundPlayers (actors (run evs new_World) ! a)
     \<and> length (instances (actors (exec (SetEffect a ''pitch'' p) (run evs new_World)) ! a))
         = length (instances (actors (run evs new_World) ! a))
     \<and> length (sources (runtime (exec (SetEffect a ''pitch'' p) (run evs new_World))))
         = length (sources (runtime (run evs new_World)))"
proof -
  let ?w = "run evs new_World"
  let ?ap = "actors ?w ! a"
  let ?rt = "runtime ?w"
  let ?ps = "pitch_set p (activeSoundPlayers ?ap) (pitchEffect ?ap) (instances ?ap) ?rt"
  note ex = exec_SetEffect_actor [OF a, of "''pitch''" p]
  have "wf_world ?w" by (rule reachable_wf)
  with a have wf: "wf_actor ?ap ?rt"
    by (simp add: wf_world_def)
  have octave: "getRatio 120 = 2"
    by (simp add: getRatio_def)
  have rat: "ratio (pitchEffect (fst (setEffect ''pitch'' p ?ap ?rt))) = 2 powr (p / 120)"
    by (simp add: setEffect_pitch pitch_set_effect getRatio_def)
  note fr = pitch_set_frame [of p "activeSoundPlayers ?ap" "pitchEffect ?ap" "instances ?ap" ?rt]
  have each: "playbackRate (snd (fst (snd ?ps) ! i)) = 2 powr (p / 120)
      \<and> bufferSource (snd (fst (snd ?ps) ! i)) = bufferSource (snd (instances ?ap ! i))
      \<and> (\<forall>s. bufferSource (snd (instances ?ap ! i)) = Some s
            \<longrightarrow> src_playbackRate (sources (snd (snd ?ps)) ! s) = 2 powr (p / 120)
              \<and> src_state (sources (snd (snd ?ps)) ! s) = src_state (sources ?rt ! s))"
    if reg: "map_of (activeSoundPlayers ?ap) k = Some i" for k i
  proof -
    from wf reg have i: "i < length (instances ?ap)"
      by (simp add: wf_actor_def registry_sound_def)
    from wf have "sources_allocated (instances ?ap) ?rt"
      by (simp add: wf_actor_def)
    from pitch_set_applies [OF reg i this, of p "pitchEffect ?ap"] show ?thesis
      by (simp add: getRatio_def)
  qed
  have reg: "activeSoundPlayers (fst (setEffect ''pitch'' p ?ap ?rt)) = activeSoundPlayers ?ap"
    by (simp add: setEffect_pitch)
  have len: "length (instances (fst (setEffect ''pitch'' p ?ap ?rt))) = length (instances ?ap)"
    using fr by (simp add: setEffect_pitch)
  have src: "length (sources (snd (setEffect ''pitch'' p ?ap ?rt))) = length (sources ?rt)"
    by simp
  have insts: "instances (fst (setEffect ''pitch'' p ?ap ?rt)) = fst (snd ?ps)"
    by (simp add: setEffect_pitch)
  have rt': "snd (setEffect ''pitch'' p ?ap ?rt) = snd (snd ?ps)"
    by (simp add: setEffect_pitch)
  from octave rat each reg len src show ?thesis
    unfolding ex insts rt' by blast
qed

theorem setEffect_pitch_retunes_active_witness:
  "0 < length (actors world_playing)
   \<and> map_of (activeSoundPlayers (actors world_playing ! 0)) ''a.wav'' = Some 0
   \<and> bufferSource (snd (instances (actors world_playing ! 0) ! 0)) = Some 0
   \<and> src_state (sources (runtime world_playing) ! 0) = Sounding
   \<and> playbackRate (snd (instances (actors world_playing ! 0) ! 0)) = 1
   \<and> getRatio 120 = 2
   \<and> playbackRate (snd (instances (actors (exec (SetEffect 0 ''pitch'' 120) world_playing) ! 0) ! 0)) = 2
   \<and> src_playbackRate (sources (runtime (exec (SetEffect 0 ''pitch'' 120) world_playing)) ! 0) = 2
   \<and> src_state (sources (runtime (exec (SetEffect 0 ''pitch'' 120) world_playing)) ! 0) = Sounding
   \<and> length (sources (runtime (exec (SetEffect 0 ''pitch'' 120) world_playing))) = 1"
proof -
  have w: "world_playing = run [CreatePlayer,
      DecodeSound sound_a (Decoded \<lparr>loaded = True, audio = 1\<rparr>), PlaySound 0 ''a.wav''] new_World"
    by (simp add: world_playing_def)
  have h1: "0 < length (actors world_playing)"
    by (simp add: eval_defs)
  have h2: "map_of (activeSoundPlayers (actors world_playing ! 0)) ''a.wav'' = Some 0"
    by (simp add: eval_defs)
  have h3: "bufferSource (snd (instances (actors world_playing ! 0) ! 0)) = Some 0"
    by (simp add: eval_defs)
  have h4: "src_state (sources (runtime world_playing) ! 0) = Sounding"
    by (simp add: eval_defs)
  have h5: "playbackRate (snd (instances (actors world_playing ! 0) ! 0)) = 1"
    by (simp add: eval_defs)
  have h6: "length (sources (runtime world_playing)) = 1"
    by (simp add: eval_defs)
  have p: "(2::real) powr (120 / 120) = 2" by simp
  note t = setEffect_pitch_retunes_active [OF h1 [unfolded w], of 120, folded w, unfolded p]
  from t have c0: "getRatio 120 = 2" by (rule conjunct1)
  from t h2 h3 h4
  have c1: "playbackRate (snd (instances (actors (exec (SetEffect 0 ''pitch'' 120) world_playing) ! 0) ! 0)) = 2"
    and c2: "src_playbackRate (sources (runtime (exec (SetEffect 0 ''pitch'' 120) world_playing)) ! 0) = 2"
    and c3: "src_state (sources (runtime (exec (SetEffect 0 ''pitch'' 120) world_playing)) ! 0) = Sounding"
    by metis+
  from t h6 have c4: "length (sources (runtime (exec (SetEffect 0 ''pitch'' 120) world_playing))) = 1"
    by metis
  from h1 h2 h3 h4 h5 c0 c1 c2 c3 c4 show ?thesis by blast
qed

end
